theory Spec2Isabelle
  imports Main "HOL-Library.Word" "HOL-Library.Monad_Syntax"
begin

unbundle bit_operations_syntax

section \<open>Data model of the XBee driver\<close>

text \<open>
  Go's \<open>byte\<close> is an 8-bit word, \<open>uint16\<close>, \<open>uint32\<close> and \<open>uint64\<close> are words of
  their width. A value of Go's \<open>int\<close> is the integer it denotes; \<open>int\<close> has 64 bits, so
  the conversion of a \<open>uint64\<close> to \<open>int\<close> is its two's complement reading \<open>sint\<close>.
  A slice is a list; \<open>nil\<close> and the empty slice are both \<open>[]\<close>.
\<close>

type_synonym byte = "8 word"
type_synonym ATCommand = "byte \<times> byte"

definition frameDelimiter :: byte where "frameDelimiter = 0x7e"
definition frameATCommand :: byte where "frameATCommand = 0x08"
definition frameATCommandQueue :: byte where "frameATCommandQueue = 0x09"
definition frameZigBeeTransmitRequest :: byte where "frameZigBeeTransmitRequest = 0x10"
definition frameATCommandResponse :: byte where "frameATCommandResponse = 0x88"
definition frameModemStatus :: byte where "frameModemStatus = 0x8a"
definition frameZigBeeTransmitStatus :: byte where "frameZigBeeTransmitStatus = 0x8b"
definition frameZigBeeReceivePacket :: byte where "frameZigBeeReceivePacket = 0x90"

definition atAPIEnable :: ATCommand where "atAPIEnable = (0x41, 0x50)"
definition atInterfaceDataRate :: ATCommand where "atInterfaceDataRate = (0x42, 0x44)"
definition atNodeDiscover :: ATCommand where "atNodeDiscover = (0x4e, 0x44)"
definition atActiveScan :: ATCommand where "atActiveScan = (0x41, 0x53)"

definition standardDataRates :: "int list" where
  "standardDataRates = [1200, 2400, 4800, 9600, 19200, 38400, 57600, 115200]"

definition CSOK :: byte where "CSOK = 0"
definition CSError :: byte where "CSError = 1"
definition CSInvalidCommand :: byte where "CSInvalidCommand = 2"
definition CSInvalidParameter :: byte where "CSInvalidParameter = 3"
definition CSTxFailure :: byte where "CSTxFailure = 4"

text \<open>
  Every error value the modelled functions build. The constructors carry what the
  formatted message of the source carries.
\<close>

datatype error =
    ErrInvalidParameter
  | ErrResponse
  | ErrInvalidCommand ATCommand
  | ErrUnknownStatus byte
  | ErrUnexpectedCommand ATCommand ATCommand
  | ErrWrongFrame
  | ErrValueTooLong nat
  | ErrDataTooLong nat
  | ErrFrameSize int
  | ErrSerialNumberSize nat
  | ErrNodeFrameShort nat
  | ErrNoNullTerminator
  | ErrScanFrameShort nat
  | ErrPortWrite
  | EOF
  | ErrUnexpectedEOF

text \<open>
  What a call does: it returns its Go result pair (value and error, \<open>None\<close> for a nil
  error), or it panics with an index out of range or a send on a closed channel, or it
  blocks for ever on a channel receive.
\<close>

datatype 'a outcome = Return 'a "error option" | Panic | Blocked

datatype Event =
    ModemStatus byte
  | ATCommandResponse ATCommand byte "byte list"
  | TransmitStatus "16 word" int byte byte
  | ReceivePacket "64 word" "16 word" byte "byte list"
  | UnknownFrame "byte list"

text \<open>The field \<open>SerialNumber\<close> of \<open>Node\<close> is \<open>NodeSerialNumber\<close> here: the method
  \<open>SerialNumber\<close> of the driver has the name.\<close>

record Node =
  NodeSerialNumber :: "64 word"
  NodeID :: "byte list"
  ParentNetworkAddress :: "16 word"
  DeviceType :: byte
  Status :: byte
  ProfileID :: "16 word"
  ManufacturerID :: "16 word"

text \<open>\<open>RSSI\<close> is an \<open>int8\<close>: the byte of the response, read as signed.\<close>

record ActiveScanDevice =
  Type :: byte
  Channel :: byte
  PAN :: "16 word"
  ExtendedPAN :: "64 word"
  AllowJoin :: bool
  StackProfile :: byte
  LQI :: byte
  RSSI :: byte

text \<open>
  A buffered Go channel: the events waiting in it, oldest first, and its capacity.
  Only the event channel of the driver is ever closed; the driver's state records that.
\<close>

record chan =
  items :: "Event list"
  capacity :: nat

definition make_chan :: "nat \<Rightarrow> chan" where
  "make_chan n = \<lparr>items = [], capacity = n\<rparr>"

text \<open>
  The byte stream under the driver: the bytes it will still yield to reads, the slices
  handed to successful \<open>Write\<close> calls in order, and whether \<open>Write\<close> fails.
\<close>

record ReadWriter =
  unread :: "byte list"
  written :: "byte list list"
  write_fails :: bool

text \<open>The diagnostics the reader logs.\<close>

datatype diag =
    LogDelimiter byte
  | LogBadChecksum byte
  | LogTinyFrame
  | LogInternalChanFull
  | LogEventChanFull

record XBee =
  port :: ReadWriter
  wbuf :: "byte list"
  frameID :: byte
  eventCh :: chan
  eventChClosed :: bool
  idMap :: "byte \<rightharpoonup> chan"
  logs :: "diag list"

definition Open :: "ReadWriter \<Rightarrow> XBee" where
  "Open device =
     \<lparr>port = device,
      wbuf = (replicate (65535 + 4) 0)[0 := frameDelimiter],
      frameID = 0,
      eventCh = make_chan 8,
      eventChClosed = False,
      idMap = Map.empty,
      logs = []\<rparr>"

definition Close :: "XBee \<Rightarrow> XBee" where
  "Close xb = xb\<lparr>eventChClosed := True\<rparr>"

section \<open>Identifier registry and frame-id counter\<close>

definition registerListener :: "XBee \<Rightarrow> byte \<Rightarrow> XBee" where
  "registerListener xb fid = xb\<lparr>idMap := (idMap xb)(fid \<mapsto> make_chan 1)\<rparr>"

definition unregisterListener :: "XBee \<Rightarrow> byte \<Rightarrow> XBee" where
  "unregisterListener xb fid = xb\<lparr>idMap := (idMap xb)(fid := None)\<rparr>"

definition nextFrameID :: "XBee \<Rightarrow> byte \<times> XBee" where
  "nextFrameID xb =
     (let xb1 = xb\<lparr>frameID := frameID xb + 1\<rparr>;
          xb2 = (if frameID xb1 = 0 then xb1\<lparr>frameID := 1\<rparr> else xb1)
      in (frameID xb2, xb2))"

text \<open>The identifiers returned by \<open>n\<close> successive calls of \<open>nextFrameID\<close>.\<close>

fun frameIDs :: "nat \<Rightarrow> XBee \<Rightarrow> byte list" where
  "frameIDs 0 xb = []"
| "frameIDs (Suc n) xb = (case nextFrameID xb of (fid, xb') \<Rightarrow> fid # frameIDs n xb')"

section \<open>Frame codec\<close>

text \<open>
  The running byte sum of both checksum loops (\<open>checksum += v\<close> over a slice).
\<close>

definition checksum :: "byte list \<Rightarrow> byte" where
  "checksum bs = foldl (\<lambda>c v. c + v) 0 bs"

text \<open>
  Go's \<open>copy(dst[off:], src)\<close>: it copies as many bytes as fit and leaves the rest
  of \<open>dst\<close> as it was.
\<close>

definition copy :: "byte list \<Rightarrow> nat \<Rightarrow> byte list \<Rightarrow> byte list" where
  "copy dst off src =
     take off dst @ take (length dst - off) src @ drop (off + length src) dst"

text \<open>
  \<open>writeFrame n\<close> frames the \<open>n\<close> payload bytes the caller has put at
  \<open>wbuf[3..3+n)\<close>. The buffer is allocated once by \<open>Open\<close> with 65539 bytes and never
  resliced, so with \<open>n \<le> 65535\<close> every index below is in range. A failing \<open>Write\<close>
  is modelled as writing nothing.
\<close>

definition writeFrame :: "XBee \<Rightarrow> int \<Rightarrow> error option \<times> XBee" where
  "writeFrame xb n =
     (if n < 0 \<or> n > 65535 then (Some (ErrFrameSize n), xb)
      else
        let w1 = (wbuf xb)[1 := word_of_int (drop_bit 8 n)];
            w2 = w1[2 := word_of_int (n AND 0xff)];
            cks = checksum (take (nat n) (drop 3 w2));
            w3 = w2[3 + nat n := 0xff - cks];
            xb' = xb\<lparr>wbuf := w3\<rparr>
        in if write_fails (port xb') then (Some ErrPortWrite, xb')
           else (None, xb'\<lparr>port := (port xb')
                   \<lparr>written := written (port xb') @ [take (4 + nat n) w3]\<rparr>\<rparr>))"

text \<open>
  The first half of one iteration of \<open>readLoop\<close>: delimiter, length, payload and
  checksum, read from the bytes the port still holds. It gives what was found and the
  bytes left. \<open>io.ReadFull\<close> fails with \<open>EOF\<close> when no byte is left and with
  \<open>ErrUnexpectedEOF\<close> when the stream ends inside what it reads.
\<close>

datatype frame_read =
    ReadErr error
  | Resync byte
  | BadChecksum byte
  | TinyFrame
  | Frame "byte list"

definition ReadFull_err :: "byte list \<Rightarrow> error" where
  "ReadFull_err inp = (if inp = [] then EOF else ErrUnexpectedEOF)"

definition readFrame :: "byte list \<Rightarrow> frame_read \<times> byte list" where
  "readFrame inp =
     (case inp of
        [] \<Rightarrow> (ReadErr EOF, [])
      | b # r1 \<Rightarrow>
          if b \<noteq> frameDelimiter then (Resync b, r1)
          else if length r1 < 2 then (ReadErr (ReadFull_err r1), [])
          else
            let frameLen = nat (push_bit 8 (uint (r1 ! 0)) OR uint (r1 ! 1));
                r2 = drop 2 r1
            in if length r2 < frameLen + 1 then (ReadErr (ReadFull_err r2), [])
               else
                 let buf = take (frameLen + 1) r2;
                     r3 = drop (frameLen + 1) r2;
                     sum = checksum buf
                 in if sum \<noteq> 0xff then (BadChecksum sum, r3)
                    else if frameLen < 2 then (TinyFrame, r3)
                    else (Frame (take (length buf - 1) buf), r3))"

section \<open>Reader task\<close>

text \<open>
  Indexing and slicing as Go checks them: \<open>None\<close> is the run-time panic
  "index out of range" (or "slice bounds out of range").
\<close>

definition index :: "byte list \<Rightarrow> nat \<Rightarrow> byte option" where
  "index buf i = (if i < length buf then Some (buf ! i) else None)"

definition slice_from :: "byte list \<Rightarrow> nat \<Rightarrow> byte list option" where
  "slice_from buf i = (if i \<le> length buf then Some (drop i buf) else None)"

definition slice :: "byte list \<Rightarrow> nat \<Rightarrow> nat \<Rightarrow> byte list option" where
  "slice buf lo hi =
     (if lo \<le> hi \<and> hi \<le> length buf then Some (take (hi - lo) (drop lo buf)) else None)"

text \<open>
  The \<open>switch buf[0]\<close> of \<open>readLoop\<close>: the frame identifier (0 where the kind carries
  none) and the typed event, or \<open>None\<close> where an index expression panics.
\<close>

definition classify :: "byte list \<Rightarrow> (byte \<times> Event) option" where
  "classify buf = do {
     kind \<leftarrow> index buf 0;
     if kind = frameModemStatus then do {
       s \<leftarrow> index buf 1;
       Some (0, ModemStatus s)
     } else if kind = frameATCommandResponse then do {
       fid \<leftarrow> index buf 1;
       c0 \<leftarrow> index buf 2;
       c1 \<leftarrow> index buf 3;
       st \<leftarrow> index buf 4;
       d \<leftarrow> slice_from buf 5;
       Some (fid, ATCommandResponse (c0, c1) st d)
     } else if kind = frameZigBeeTransmitStatus then do {
       fid \<leftarrow> index buf 1;
       a0 \<leftarrow> index buf 2;
       a1 \<leftarrow> index buf 3;
       rc \<leftarrow> index buf 4;
       dl \<leftarrow> index buf 5;
       di \<leftarrow> index buf 6;
       Some (fid, TransmitStatus (push_bit 8 (ucast a0) OR ucast a1) (uint rc) dl di)
     } else if kind = frameZigBeeReceivePacket then do {
       b1 \<leftarrow> index buf 1;
       b2 \<leftarrow> index buf 2;
       b3 \<leftarrow> index buf 3;
       b4 \<leftarrow> index buf 4;
       b5 \<leftarrow> index buf 5;
       b6 \<leftarrow> index buf 6;
       b7 \<leftarrow> index buf 7;
       b8 \<leftarrow> index buf 8;
       n0 \<leftarrow> index buf 9;
       n1 \<leftarrow> index buf 10;
       ro \<leftarrow> index buf 11;
       d \<leftarrow> slice_from buf 12;
       Some (0, ReceivePacket
         (push_bit 56 (ucast b1) OR push_bit 48 (ucast b2) OR
          push_bit 40 (ucast b3) OR push_bit 32 (ucast b4) OR
          push_bit 24 (ucast b5) OR push_bit 16 (ucast b6) OR
          push_bit 8 (ucast b7) OR ucast b8)
         (push_bit 8 (ucast n0) OR ucast n1) ro d)
     } else Some (0, UnknownFrame buf)
   }"

text \<open>
  A non-blocking send (\<open>select\<close> with a \<open>default\<close> branch): the event is queued when
  the buffer has room; \<open>None\<close> is the \<open>default\<close> branch, taken when it is full.
\<close>

definition trySend :: "chan \<Rightarrow> Event \<Rightarrow> chan option" where
  "trySend ch ev =
     (if length (items ch) < capacity ch then Some (ch\<lparr>items := items ch @ [ev]\<rparr>)
      else None)"

text \<open>One iteration of the reader either goes on, leaves the loop with the error of
  the byte stream and the state in which the bytes read so far are consumed, or panics.
  A panic ends the program, so it leaves no state to observe.\<close>

datatype iteration = Again XBee | Exit error XBee | IterPanic

text \<open>
  The routing at the end of an iteration. A waiter's channel lives in \<open>idMap\<close> from
  \<open>registerListener\<close> to \<open>unregisterListener\<close>, so sending to it updates that entry.
  A send on the event channel after \<open>Close\<close> panics, as every send on a closed channel
  does.
\<close>

definition dispatch :: "XBee \<Rightarrow> byte \<Rightarrow> Event \<Rightarrow> iteration" where
  "dispatch xb fid ev =
     (case (if fid \<noteq> 0 then idMap xb fid else None) of
        Some ch \<Rightarrow>
          (case trySend ch ev of
             Some ch' \<Rightarrow> Again (xb\<lparr>idMap := (idMap xb)(fid \<mapsto> ch')\<rparr>)
           | None \<Rightarrow> Again (xb\<lparr>logs := logs xb @ [LogInternalChanFull]\<rparr>))
      | None \<Rightarrow>
          if eventChClosed xb then IterPanic
          else
            (case trySend (eventCh xb) ev of
               Some ch' \<Rightarrow> Again (xb\<lparr>eventCh := ch'\<rparr>)
             | None \<Rightarrow> Again (xb\<lparr>logs := logs xb @ [LogEventChanFull]\<rparr>)))"

definition readLoop_iter :: "XBee \<Rightarrow> iteration" where
  "readLoop_iter xb =
     (case readFrame (unread (port xb)) of
        (r, rest) \<Rightarrow>
          let xb1 = xb\<lparr>port := (port xb)\<lparr>unread := rest\<rparr>\<rparr> in
          (case r of
             ReadErr e \<Rightarrow> Exit e xb1
           | Resync b \<Rightarrow> Again (xb1\<lparr>logs := logs xb1 @ [LogDelimiter b]\<rparr>)
           | BadChecksum c \<Rightarrow> Again (xb1\<lparr>logs := logs xb1 @ [LogBadChecksum c]\<rparr>)
           | TinyFrame \<Rightarrow> Again (xb1\<lparr>logs := logs xb1 @ [LogTinyFrame]\<rparr>)
           | Frame buf \<Rightarrow>
               (case classify buf of
                  None \<Rightarrow> IterPanic
                | Some (fid, ev) \<Rightarrow> dispatch xb1 fid ev)))"

text \<open>
  The loop itself, on the finite stream the port holds: it ends with the read error at
  the end of the stream, in the state where every byte read has been consumed, or with
  a panic, for which the state before the failing iteration is kept.
\<close>

function readLoop :: "XBee \<Rightarrow> unit outcome \<times> XBee" where
  "readLoop xb =
     (case readLoop_iter xb of
        Again xb' \<Rightarrow> readLoop xb'
      | Exit e xb' \<Rightarrow> (Return () (Some e), xb')
      | IterPanic \<Rightarrow> (Panic, xb))"
  by pat_completeness auto
termination
proof (relation "measure (\<lambda>xb. length (unread (port xb)))")
  show "wf (measure (\<lambda>xb. length (unread (port xb))))"
    by simp
next
  fix xb xb' :: XBee
  assume step: "readLoop_iter xb = Again xb'"
  obtain r rest where rf: "readFrame (unread (port xb)) = (r, rest)"
    by (cases "readFrame (unread (port xb))")
  have shorter: "(\<forall>e. r \<noteq> ReadErr e) \<longrightarrow> length rest < length (unread (port xb))"
    using rf
    by (auto simp: readFrame_def Let_def split: list.splits if_splits)
  have "r \<noteq> ReadErr e" for e
    using step rf by (auto simp: readLoop_iter_def)
  moreover have "unread (port xb') = rest"
    using step rf
    by (auto simp: readLoop_iter_def dispatch_def Let_def
        split: frame_read.splits option.splits if_splits)
  ultimately show "(xb', xb) \<in> measure (\<lambda>xb. length (unread (port xb)))"
    using shorter by simp
qed

declare readLoop.simps [simp del]

section \<open>Request dispatcher\<close>

definition validateATResponse :: "ATCommand \<Rightarrow> ATCommand \<Rightarrow> byte \<Rightarrow> error option" where
  "validateATResponse cmd resCmd resStatus =
     (if resCmd \<noteq> cmd then Some (ErrUnexpectedCommand cmd resCmd)
      else if resStatus = CSOK then None
      else if resStatus = CSError then Some ErrResponse
      else if resStatus = CSInvalidCommand then Some (ErrInvalidCommand cmd)
      else if resStatus = CSInvalidParameter then Some ErrInvalidParameter
      else Some (ErrUnknownStatus resStatus))"

text \<open>
  \<open>atCommand\<close> sends one AT command frame and waits for one event on its waiter's
  channel. The event that arrives there is the argument \<open>rx\<close>; \<open>None\<close> means that
  none ever arrives, and the call blocks. The deferred \<open>unregisterListener\<close> runs on
  every return after the registration.
\<close>

definition atCommand ::
    "XBee \<Rightarrow> ATCommand \<Rightarrow> byte list \<Rightarrow> Event option \<Rightarrow> byte list outcome \<times> XBee" where
  "atCommand xb cmd val rx =
     (if length val > 65536 - 8 then (Return [] (Some (ErrValueTooLong (length val))), xb)
      else
        case nextFrameID xb of (fid, xb1) \<Rightarrow>
        let w = (wbuf xb1)[3 := frameATCommand, 4 := fid, 5 := fst cmd, 6 := snd cmd];
            w' = (if length val \<noteq> 0 then copy w 7 val else w);
            xb2 = registerListener (xb1\<lparr>wbuf := w'\<rparr>) fid
        in case writeFrame xb2 (4 + int (length val)) of
             (Some e, xb3) \<Rightarrow> (Return [] (Some e), unregisterListener xb3 fid)
           | (None, xb3) \<Rightarrow>
               (case rx of
                  None \<Rightarrow> (Blocked, xb3)
                | Some (ATCommandResponse resCmd resStatus resData) \<Rightarrow>
                    (case validateATResponse cmd resCmd resStatus of
                       Some e \<Rightarrow> (Return [] (Some e), unregisterListener xb3 fid)
                     | None \<Rightarrow> (Return resData None, unregisterListener xb3 fid))
                | Some _ \<Rightarrow> (Return [] (Some ErrWrongFrame), unregisterListener xb3 fid)))"

definition decodeUint :: "byte list \<Rightarrow> 64 word" where
  "decodeUint b = foldl (\<lambda>v b. push_bit 8 v OR ucast b) 0 b"


section \<open>Typed operations\<close>


text \<open>
  The result of \<open>InterfaceDataRate\<close> is a Go \<open>int\<close>: an entry of the table of
  \<open>int\<close>s, or the conversion \<open>int(rate)\<close> of the decoded \<open>uint64\<close>.
\<close>

definition InterfaceDataRate :: "XBee \<Rightarrow> Event option \<Rightarrow> int outcome \<times> XBee" where
  "InterfaceDataRate xb rx =
     (case atCommand xb atInterfaceDataRate [] rx of
        (Panic, xb1) \<Rightarrow> (Panic, xb1)
      | (Blocked, xb1) \<Rightarrow> (Blocked, xb1)
      | (Return b (Some e), xb1) \<Rightarrow> (Return 0 (Some e), xb1)
      | (Return b None, xb1) \<Rightarrow>
          let rate = decodeUint b in
          if rate \<le> 7 then (Return (standardDataRates ! unat rate) None, xb1)
          else (Return (sint rate) None, xb1))"

definition APIEnabled :: "XBee \<Rightarrow> Event option \<Rightarrow> bool outcome \<times> XBee" where
  "APIEnabled xb rx =
     (case atCommand xb atAPIEnable [] rx of
        (Panic, xb1) \<Rightarrow> (Panic, xb1)
      | (Blocked, xb1) \<Rightarrow> (Blocked, xb1)
      | (Return b err, xb1) \<Rightarrow>
          (case index b 0 of
             None \<Rightarrow> (Panic, xb1)
           | Some b0 \<Rightarrow> (Return (b0 = 2) err, xb1)))"

section \<open>Gathering requests\<close>

text \<open>\<open>bytes.IndexByte\<close>; \<open>None\<close> is its result \<open>-1\<close>.\<close>

primrec IndexByte :: "byte list \<Rightarrow> byte \<Rightarrow> nat option" where
  "IndexByte [] c = None"
| "IndexByte (x # xs) c = (if x = c then Some 0 else map_option Suc (IndexByte xs c))"

text \<open>
  What one pass through the body of a gathering loop does with a response that passed
  \<open>validateATResponse\<close>: it appends a record, returns with an error, or panics.
\<close>

datatype 'a parsed = Record 'a | Malformed error | ParsePanic

definition lift_index :: "'b option \<Rightarrow> ('b \<Rightarrow> 'a parsed) \<Rightarrow> 'a parsed" where
  "lift_index v f = (case v of None \<Rightarrow> ParsePanic | Some x \<Rightarrow> f x)"

definition NodeDiscover_record :: "byte list \<Rightarrow> Node parsed" where
  "NodeDiscover_record d =
     (if length d < 18 then Malformed (ErrNodeFrameShort (length d))
      else
        lift_index (slice d 2 10) (\<lambda>sn.
        lift_index (slice_from d 10) (\<lambda>d1.
          case IndexByte d1 0 of
            None \<Rightarrow> Malformed ErrNoNullTerminator
          | Some ix \<Rightarrow>
              lift_index (slice d1 0 ix) (\<lambda>ni.
              lift_index (slice_from d1 (ix + 1)) (\<lambda>d2.
              lift_index (index d2 0) (\<lambda>p0.
              lift_index (index d2 1) (\<lambda>p1.
              lift_index (index d2 2) (\<lambda>dt.
              lift_index (index d2 3) (\<lambda>st.
              lift_index (index d2 4) (\<lambda>f0.
              lift_index (index d2 5) (\<lambda>f1.
              lift_index (index d2 6) (\<lambda>m0.
              lift_index (index d2 7) (\<lambda>m1.
                Record
                  \<lparr>NodeSerialNumber = decodeUint sn,
                   NodeID = ni,
                   ParentNetworkAddress = push_bit 8 (ucast p0) OR ucast p1,
                   DeviceType = dt,
                   Status = st,
                   ProfileID = push_bit 8 (ucast f0) OR ucast f1,
                   ManufacturerID = push_bit 8 (ucast m0) OR ucast m1\<rparr>)))))))))))))"

definition ActiveScan_record :: "byte list \<Rightarrow> ActiveScanDevice parsed" where
  "ActiveScan_record d =
     (if length d < 16 then Malformed (ErrScanFrameShort (length d))
      else
        lift_index (index d 0) (\<lambda>ty.
        lift_index (index d 1) (\<lambda>ch.
        lift_index (slice d 2 4) (\<lambda>pan.
        lift_index (slice d 4 12) (\<lambda>ext.
        lift_index (index d 12) (\<lambda>aj.
        lift_index (index d 13) (\<lambda>sp.
        lift_index (index d 14) (\<lambda>lq.
        lift_index (index d 15) (\<lambda>rs.
          Record
            \<lparr>Type = ty,
             Channel = ch,
             PAN = ucast (decodeUint pan),
             ExtendedPAN = decodeUint ext,
             AllowJoin = (aj \<noteq> 0),
             StackProfile = sp,
             LQI = lq,
             RSSI = rs\<rparr>)))))))))"

text \<open>
  What the \<open>select\<close> of a gathering loop takes, one entry per pass: the deadline timer
  or the next event on the waiter's channel. A loop that runs out of entries waits for
  ever.
\<close>

datatype selected = Deadline | Received Event

fun gather ::
    "ATCommand \<Rightarrow> (byte list \<Rightarrow> 'a parsed) \<Rightarrow> selected list \<Rightarrow> 'a list \<Rightarrow> 'a list outcome" where
  "gather cmd parse [] acc = Blocked"
| "gather cmd parse (Deadline # sel) acc = Return acc None"
| "gather cmd parse (Received (ATCommandResponse resCmd resStatus resData) # sel) acc =
     (case validateATResponse cmd resCmd resStatus of
        Some e \<Rightarrow> Return acc (Some e)
      | None \<Rightarrow>
          (case parse resData of
             Malformed e \<Rightarrow> Return acc (Some e)
           | ParsePanic \<Rightarrow> Panic
           | Record r \<Rightarrow> gather cmd parse sel (acc @ [r])))"
| "gather cmd parse (Received _ # sel) acc = Return [] (Some ErrWrongFrame)"

text \<open>
  The part both gathering requests share before and after their loop: the frame for
  the command, the waiter, the write, and the deferred \<open>unregisterListener\<close> (which
  also runs when the loop panics).
\<close>

definition gathering ::
    "XBee \<Rightarrow> ATCommand \<Rightarrow> (byte list \<Rightarrow> 'a parsed) \<Rightarrow> selected list \<Rightarrow> 'a list outcome \<times> XBee" where
  "gathering xb cmd parse sel =
     (case nextFrameID xb of (fid, xb1) \<Rightarrow>
      let w = (wbuf xb1)[3 := frameATCommand, 4 := fid, 5 := fst cmd, 6 := snd cmd];
          xb2 = registerListener (xb1\<lparr>wbuf := w\<rparr>) fid
      in case writeFrame xb2 4 of
           (Some e, xb3) \<Rightarrow> (Return [] (Some e), unregisterListener xb3 fid)
         | (None, xb3) \<Rightarrow>
             (case gather cmd parse sel [] of
                Blocked \<Rightarrow> (Blocked, xb3)
              | r \<Rightarrow> (r, unregisterListener xb3 fid)))"

definition NodeDiscover :: "XBee \<Rightarrow> selected list \<Rightarrow> Node list outcome \<times> XBee" where
  "NodeDiscover xb sel = gathering xb atNodeDiscover NodeDiscover_record sel"

definition ActiveScan :: "XBee \<Rightarrow> selected list \<Rightarrow> ActiveScanDevice list outcome \<times> XBee" where
  "ActiveScan xb sel = gathering xb atActiveScan ActiveScan_record sel"

section \<open>Transmit\<close>

definition Transmit ::
    "XBee \<Rightarrow> 64 word \<Rightarrow> 16 word \<Rightarrow> byte \<Rightarrow> byte \<Rightarrow> byte list \<Rightarrow> unit outcome \<times> XBee" where
  "Transmit xb dest net broadcastRadius options data =
     (if length data > 65536 - 20 then (Return () (Some (ErrDataTooLong (length data))), xb)
      else
        case nextFrameID xb of (fid, xb1) \<Rightarrow>
        let w = (wbuf xb1)
              [3 := frameZigBeeTransmitRequest,
               4 := fid,
               5 := ucast (drop_bit 56 dest),
               6 := ucast (drop_bit 48 dest),
               7 := ucast (drop_bit 40 dest),
               8 := ucast (drop_bit 32 dest),
               9 := ucast (drop_bit 24 dest),
               10 := ucast (drop_bit 16 dest),
               11 := ucast (drop_bit 8 dest),
               12 := ucast (dest AND 0xff),
               13 := ucast (drop_bit 8 net),
               14 := ucast (net AND 0xff),
               15 := broadcastRadius,
               16 := options];
            w' = copy w 17 data
        in case writeFrame (xb1\<lparr>wbuf := w'\<rparr>) (14 + int (length data)) of
             (err, xb2) \<Rightarrow> (Return () err, xb2))"

section \<open>Example byte streams\<close>

text \<open>A port that still holds the given bytes, has written nothing and accepts writes.\<close>

abbreviation port_holding :: "byte list \<Rightarrow> ReadWriter" where
  "port_holding bs \<equiv> \<lparr>unread = bs, written = [], write_fails = False\<rparr>"

text \<open>
  A node-discovery response for serial number \<open>0x0102030405060708\<close> and node
  identifier "AB", and an active-scan response for PAN \<open>0x1234\<close> on channel 11.
\<close>

abbreviation node_response :: Event where
  "node_response \<equiv> ATCommandResponse atNodeDiscover CSOK
     [0x00, 0x00, 0x01, 0x02, 0x03, 0x04, 0x05, 0x06, 0x07, 0x08, 0x41, 0x42, 0x00,
      0x09, 0x09, 0x01, 0x00, 0xc1, 0x05, 0x10, 0x1e]"

abbreviation node_value :: Node where
  "node_value \<equiv>
     \<lparr>NodeSerialNumber = 0x0102030405060708, NodeID = [0x41, 0x42],
      ParentNetworkAddress = 0x0909, DeviceType = 1, Status = 0,
      ProfileID = 0xc105, ManufacturerID = 0x101e\<rparr>"

abbreviation scan_response :: Event where
  "scan_response \<equiv> ATCommandResponse atActiveScan CSOK
     [0x02, 0x0b, 0x12, 0x34, 0x01, 0x02, 0x03, 0x04, 0x05, 0x06, 0x07, 0x08,
      0x01, 0x02, 0xff, 0xd8]"

abbreviation scan_value :: ActiveScanDevice where
  "scan_value \<equiv>
     \<lparr>Type = 0x02, Channel = 0x0b, PAN = 0x1234, ExtendedPAN = 0x0102030405060708,
      AllowJoin = True, StackProfile = 0x02, LQI = 0xff, RSSI = 0xd8\<rparr>"

section \<open>The frame-id counter\<close>

lemma nextFrameID_fst:
  "fst (nextFrameID xb) = (if frameID xb + 1 = 0 then 1 else frameID xb + 1)"
  by (simp add: nextFrameID_def Let_def)

lemma nextFrameID_frameID:
  "frameID (snd (nextFrameID xb)) = fst (nextFrameID xb)"
  by (simp add: nextFrameID_def Let_def)

lemma frameIDs_head: "frameIDs (Suc n) xb ! 0 = fst (nextFrameID xb)"
  by (simp split: prod.splits)

text \<open>Each identifier is the successor of the one before it, with 0 skipped.\<close>

lemma frameIDs_next:
  "Suc i < n \<Longrightarrow>
   frameIDs n xb ! Suc i =
     (if frameIDs n xb ! i + 1 = 0 then 1 else frameIDs n xb ! i + 1)"
proof (induction n arbitrary: xb i)
  case 0
  then show ?case by simp
next
  case (Suc n)
  obtain fid xb' where nf: "nextFrameID xb = (fid, xb')"
    by (cases "nextFrameID xb")
  have fid: "frameID xb' = fid"
    using nextFrameID_frameID [of xb] nf by simp
  show ?case
  proof (cases i)
    case 0
    with Suc.prems obtain m where n: "n = Suc m"
      by (cases n) auto
    have "frameIDs n xb' ! 0 = fst (nextFrameID xb')"
      unfolding n by (rule frameIDs_head)
    then show ?thesis
      using 0 nf fid by (simp add: nextFrameID_fst)
  next
    case (Suc j)
    with Suc.prems have "Suc j < n" by simp
    from Suc.IH [OF this, of xb'] show ?thesis
      using Suc nf by simp
  qed
qed

lemma frameIDs_nonzero: "0 \<notin> set (frameIDs n xb)"
proof (induction n arbitrary: xb)
  case 0
  then show ?case by simp
next
  case (Suc n)
  obtain fid xb' where nf: "nextFrameID xb = (fid, xb')"
    by (cases "nextFrameID xb")
  have "fst (nextFrameID xb) \<noteq> 0"
    by (simp add: nextFrameID_fst)
  with nf have "fid \<noteq> 0" by simp
  with Suc [of xb'] nf show ?case
    by simp
qed

lemma byte_succ_neq: "(if c + 1 = 0 then 1 else c + 1) \<noteq> (c :: byte)"
proof (cases "c + 1 = 0")
  case True
  then have "c = - 1" by (simp add: eq_neg_iff_add_eq_0)
  then show ?thesis by simp
next
  case False
  then show ?thesis by simp
qed

text \<open>
  C4. Over any number \<open>N\<close> of successive calls of \<open>nextFrameID\<close>, from any state of
  the counter (the state \<open>Open\<close> leaves, with the counter at 0, is one), no call
  returns 0, two consecutive calls return different identifiers, and the call after
  one that returned 255 returns 1.
\<close>

theorem frame_id_allocator:
  "0 \<notin> set (frameIDs N xb) \<and>
   (\<forall>i. Suc i < N \<longrightarrow> frameIDs N xb ! i \<noteq> frameIDs N xb ! Suc i) \<and>
   (\<forall>i. Suc i < N \<longrightarrow> frameIDs N xb ! i = 255 \<longrightarrow> frameIDs N xb ! Suc i = 1)"
proof (intro conjI allI impI)
  show "0 \<notin> set (frameIDs N xb)"
    by (rule frameIDs_nonzero)
next
  fix i assume "Suc i < N"
  from frameIDs_next [OF this, of xb] byte_succ_neq [of "frameIDs N xb ! i"]
  show "frameIDs N xb ! i \<noteq> frameIDs N xb ! Suc i"
    by metis
next
  fix i assume "Suc i < N" and "frameIDs N xb ! i = 255"
  with frameIDs_next [of i N xb] show "frameIDs N xb ! Suc i = 1"
    by simp
qed

theorem frame_id_allocator_witness:
  "Suc 0 < Suc (Suc 0) \<and>
   frameIDs (Suc (Suc 0))
     (Open \<lparr>unread = [], written = [], write_fails = False\<rparr>) ! 0 \<noteq>
   frameIDs (Suc (Suc 0))
     (Open \<lparr>unread = [], written = [], write_fails = False\<rparr>) ! Suc 0 \<and>
   frameIDs (Suc (Suc 0))
     ((Open \<lparr>unread = [], written = [], write_fails = False\<rparr>)\<lparr>frameID := 254\<rparr>) ! 0 = 255 \<and>
   frameIDs (Suc (Suc 0))
     ((Open \<lparr>unread = [], written = [], write_fails = False\<rparr>)\<lparr>frameID := 254\<rparr>) ! Suc 0 = 1 \<and>
   0 \<notin> set (frameIDs (Suc (Suc 0))
     ((Open \<lparr>unread = [], written = [], write_fails = False\<rparr>)\<lparr>frameID := 254\<rparr>))"
proof -
  let ?init = "Open \<lparr>unread = [], written = [], write_fails = False\<rparr>"
  let ?xb = "?init\<lparr>frameID := 254\<rparr>"
  have lt: "Suc 0 < Suc (Suc 0)" by simp
  have first: "frameIDs (Suc (Suc 0)) ?xb ! 0 = 255"
    by (simp add: nextFrameID_def Let_def)
  have a: "frameIDs (Suc (Suc 0)) ?init ! 0 \<noteq> frameIDs (Suc (Suc 0)) ?init ! Suc 0"
    using frame_id_allocator [of "Suc (Suc 0)" ?init] lt by (elim conjE allE [of _ 0]) simp
  have b: "frameIDs (Suc (Suc 0)) ?xb ! Suc 0 = 1"
    using frame_id_allocator [of "Suc (Suc 0)" ?xb] lt first
    by (elim conjE allE [of _ 0]) simp
  have c: "0 \<notin> set (frameIDs (Suc (Suc 0)) ?xb)"
    using frame_id_allocator [of "Suc (Suc 0)" ?xb] by (elim conjE)
  from lt a first b c show ?thesis
    by simp
qed

section \<open>Round trip through the frame codec\<close>

lemma checksum_snoc: "checksum (bs @ [b]) = checksum bs + b"
  by (simp add: checksum_def)

lemma checksum_closes: "checksum (P @ [0xff - checksum P]) = 0xff"
  by (simp add: checksum_snoc)

lemma unat_checksum: "unat (checksum bs) = sum_list (map unat bs) mod 256"
proof (induction bs rule: rev_induct)
  case Nil
  then show ?case by (simp add: checksum_def)
next
  case (snoc b bs)
  have "unat (checksum (bs @ [b])) = (unat (checksum bs) + unat b) mod 256"
    by (simp add: checksum_snoc unat_word_ariths)
  also have "\<dots> = (sum_list (map unat bs) mod 256 + unat b) mod 256"
    by (simp add: snoc)
  also have "\<dots> = sum_list (map unat (bs @ [b])) mod 256"
    by (simp add: mod_add_left_eq)
  finally show ?case .
qed

lemma frameLen_decode:
  assumes "0 \<le> n" "n \<le> 65535"
  shows "push_bit 8 (uint (word_of_int (drop_bit 8 n) :: byte)) OR
         uint (word_of_int (n AND 0xff) :: byte) = n"
proof -
  have hi: "uint (word_of_int (drop_bit 8 n) :: byte) = drop_bit 8 n"
  proof -
    have "drop_bit 8 n < 256" using assms by (simp add: drop_bit_eq_div)
    moreover have "0 \<le> drop_bit 8 n" using assms by (simp add: drop_bit_eq_div)
    ultimately show ?thesis by (simp add: uint_word_of_int take_bit_eq_mod)
  qed
  have lo: "uint (word_of_int (n AND 0xff) :: byte) = take_bit 8 n"
  proof -
    have "n AND 0xff = take_bit 8 n"
      by (simp add: take_bit_eq_mask mask_eq_exp_minus_1)
    then show ?thesis by (simp add: uint_word_of_int take_bit_eq_mod)
  qed
  have "push_bit 8 (drop_bit 8 n) OR take_bit 8 n = n"
    by (rule bit_eqI) (auto simp: bit_simps)
  then show ?thesis by (simp add: hi lo)
qed


lemma copy_length: "off \<le> length dst \<Longrightarrow> length (copy dst off src) = length dst"
  by (auto simp: copy_def min_def)

lemma copy_nth_before: "i < off \<Longrightarrow> off \<le> length dst \<Longrightarrow> copy dst off src ! i = dst ! i"
  by (simp add: copy_def nth_append)

lemma copy_payload:
  "off + length src \<le> length dst \<Longrightarrow> take (length src) (drop off (copy dst off src)) = src"
  by (simp add: copy_def)

lemma writeFrame_written:
  assumes n: "0 \<le> n" "n \<le> 65535"
    and len: "4 + nat n \<le> length (wbuf xb)"
    and ok: "\<not> write_fails (port xb)"
  shows "fst (writeFrame xb n) = None \<and>
         written (port (snd (writeFrame xb n))) =
           written (port xb) @
             [[wbuf xb ! 0, word_of_int (drop_bit 8 n), word_of_int (n AND 0xff)] @
              take (nat n) (drop 3 (wbuf xb)) @
              [0xff - checksum (take (nat n) (drop 3 (wbuf xb)))]]"
proof -
  let ?P = "take (nat n) (drop 3 (wbuf xb))"
  let ?hi = "word_of_int (drop_bit 8 n) :: byte"
  let ?lo = "word_of_int (n AND 0xff) :: byte"
  let ?c = "0xff - checksum ?P"
  let ?w3 = "(wbuf xb)[1 := ?hi, 2 := ?lo, 3 + nat n := ?c]"
  have frame: "take (4 + nat n) ?w3 = [wbuf xb ! 0, ?hi, ?lo] @ ?P @ [?c]"
  proof (rule nth_equalityI)
    show "length (take (4 + nat n) ?w3) = length ([wbuf xb ! 0, ?hi, ?lo] @ ?P @ [?c])"
      using len by simp
  next
    fix i assume "i < length (take (4 + nat n) ?w3)"
    then have i: "i < 4 + nat n" by simp
    consider "i = 0" | "i = 1" | "i = 2" | "3 \<le> i" "i < 3 + nat n" | "i = 3 + nat n"
      using i by linarith
    then show "take (4 + nat n) ?w3 ! i = ([wbuf xb ! 0, ?hi, ?lo] @ ?P @ [?c]) ! i"
    proof cases
      case 1 then show ?thesis using len by simp
    next
      case 2 then show ?thesis using len by simp
    next
      case 3 then show ?thesis using len by simp
    next
      case 4
      then obtain j where j: "i = 3 + j" "j < nat n"
        by (metis add.commute le_Suc_ex nat_add_left_cancel_less)
      show ?thesis using len j by (simp add: nth_append)
    next
      case 5 then show ?thesis using len by (simp add: nth_append)
    qed
  qed
  have "drop 3 ((wbuf xb)[1 := ?hi, 2 := ?lo]) = drop 3 (wbuf xb)"
    by simp
  then show ?thesis
    using n ok frame by (simp add: writeFrame_def Let_def)
qed


lemma readFrame_frame:
  assumes n: "0 \<le> n" "n \<le> 65535" and P: "length P = nat n"
  shows "readFrame ([frameDelimiter, word_of_int (drop_bit 8 n), word_of_int (n AND 0xff)] @
                    P @ [0xff - checksum P] @ rest) =
         (if length P < 2 then TinyFrame else Frame P, rest)"
proof -
  have len: "nat (push_bit 8 (uint (word_of_int (drop_bit 8 n) :: byte)) OR
                  uint (word_of_int (n AND 0xff) :: byte)) = length P"
    using frameLen_decode [OF n] P by simp
  have "checksum (take (Suc (length P)) (P @ (0xff - checksum P) # rest)) = 0xff"
    using checksum_closes [of P] by simp
  then show ?thesis
    using len by (simp add: readFrame_def Let_def)
qed

text \<open>
  C1 (as amended). The caller puts a payload \<open>P\<close> of at most 65535 bytes at offset 3 of
  the write buffer and calls \<open>writeFrame\<close> with its length. On a port that accepts the
  write, exactly one frame of \<open>1 + 2 + length P + 1\<close> bytes is written; the sum of the
  payload bytes plus the checksum byte is 0xFF modulo 256, so the reader's checksum
  test passes; and the reader, given that frame, recovers exactly \<open>P\<close> when \<open>P\<close> has
  at least 2 bytes, and discards the frame as tiny when it has fewer.
\<close>

theorem frame_round_trip:
  assumes "length (wbuf xb) = 65539"
    and "wbuf xb ! 0 = frameDelimiter"
    and "\<not> write_fails (port xb)"
    and "length P \<le> 65535"
  shows "\<exists>fr xb'.
           writeFrame (xb\<lparr>wbuf := copy (wbuf xb) 3 P\<rparr>) (int (length P)) = (None, xb') \<and>
           written (port xb') = written (port xb) @ [fr] \<and>
           length fr = 1 + 2 + length P + 1 \<and>
           (sum_list (map unat P) + unat (last fr)) mod 256 = 255 \<and>
           readFrame (fr @ rest) = (if length P < 2 then TinyFrame else Frame P, rest)"
proof -
  let ?xb = "xb\<lparr>wbuf := copy (wbuf xb) 3 P\<rparr>"
  let ?n = "int (length P)"
  let ?fr = "[frameDelimiter, word_of_int (drop_bit 8 ?n), word_of_int (?n AND 0xff)] @
             P @ [0xff - checksum P]"
  have n: "0 \<le> ?n" "?n \<le> 65535"
    using assms(4) by simp_all
  have wlen: "length (wbuf ?xb) = 65539"
    using assms(1) by (simp add: copy_length)
  have w0: "wbuf ?xb ! 0 = frameDelimiter"
    using assms(1,2) by (simp add: copy_nth_before)
  have payload: "take (nat ?n) (drop 3 (wbuf ?xb)) = P"
    using copy_payload [of 3 P "wbuf xb"] assms(1,4) by simp
  have "4 + nat ?n \<le> length (wbuf ?xb)"
    using wlen assms(4) by simp
  from writeFrame_written [OF n this] assms(3) payload w0
  have wf: "fst (writeFrame ?xb ?n) = None"
    "written (port (snd (writeFrame ?xb ?n))) = written (port xb) @ [?fr]"
    by simp_all
  have cks: "(sum_list (map unat P) + unat (0xff - checksum P)) mod 256 = 255"
  proof -
    have "unat (checksum P + (0xff - checksum P)) =
          (unat (checksum P) + unat (0xff - checksum P)) mod 2 ^ LENGTH(8)"
      by (rule unat_word_ariths)
    then have "(unat (checksum P) + unat (0xff - checksum P)) mod 256 = 255"
      by simp
    then have "(sum_list (map unat P) mod 256 + unat (0xff - checksum P)) mod 256 = 255"
      by (simp only: unat_checksum)
    then show ?thesis
      by (simp only: mod_add_left_eq)
  qed
  have rd: "readFrame (?fr @ rest) = (if length P < 2 then TinyFrame else Frame P, rest)"
    using readFrame_frame [OF n, of P rest] by simp
  show ?thesis
  proof (intro exI conjI)
    show "writeFrame ?xb ?n = (None, snd (writeFrame ?xb ?n))"
      using wf(1) by (metis prod.collapse)
    show "written (port (snd (writeFrame ?xb ?n))) = written (port xb) @ [?fr]"
      by (rule wf(2))
    show "length ?fr = 1 + 2 + length P + 1" by simp
    show "(sum_list (map unat P) + unat (last ?fr)) mod 256 = 255"
      using cks by simp
    show "readFrame (?fr @ rest) = (if length P < 2 then TinyFrame else Frame P, rest)"
      by (rule rd)
  qed
qed

lemma Open_wbuf_length: "length (wbuf (Open device)) = 65539"
  by (simp add: Open_def)

lemma Open_wbuf_delimiter: "wbuf (Open device) ! 0 = frameDelimiter"
  by (simp add: Open_def)

lemma Open_port: "port (Open device) = device"
  by (simp add: Open_def)

theorem frame_round_trip_witness:
  "length (wbuf (Open \<lparr>unread = [], written = [], write_fails = False\<rparr>)) = 65539 \<and>
   wbuf (Open \<lparr>unread = [], written = [], write_fails = False\<rparr>) ! 0 = frameDelimiter \<and>
   \<not> write_fails (port (Open \<lparr>unread = [], written = [], write_fails = False\<rparr>)) \<and>
   length [0x8a, 0x02 :: byte] \<le> 65535 \<and>
   (\<exists>fr xb'.
      writeFrame
        ((Open \<lparr>unread = [], written = [], write_fails = False\<rparr>)
           \<lparr>wbuf := copy (wbuf (Open \<lparr>unread = [], written = [], write_fails = False\<rparr>)) 3
              [0x8a, 0x02]\<rparr>)
        (int (length [0x8a, 0x02 :: byte])) = (None, xb') \<and>
      written (port xb') =
        written (port (Open \<lparr>unread = [], written = [], write_fails = False\<rparr>)) @ [fr] \<and>
      length fr = 1 + 2 + length [0x8a, 0x02 :: byte] + 1 \<and>
      (sum_list (map unat [0x8a, 0x02 :: byte]) + unat (last fr)) mod 256 = 255 \<and>
      readFrame (fr @ []) =
        (if length [0x8a, 0x02 :: byte] < 2 then TinyFrame else Frame [0x8a, 0x02], []))"
proof -
  let ?dev = "\<lparr>unread = [], written = [], write_fails = False\<rparr>"
  have h1: "length (wbuf (Open ?dev)) = 65539" by (rule Open_wbuf_length)
  have h2: "wbuf (Open ?dev) ! 0 = frameDelimiter" by (rule Open_wbuf_delimiter)
  have h3: "\<not> write_fails (port (Open ?dev))" by (simp add: Open_port)
  have h4: "length [0x8a, 0x02 :: byte] \<le> 65535" by simp
  show ?thesis
    by (intro conjI h1 h2 h3 h4 frame_round_trip [OF h1 h2 h3 h4])
qed

text \<open>
  The claim as stated fails for a payload of one byte: the frame for \<open>[0x8A]\<close> is
  \<open>7E 00 01 8A 75\<close>; its checksum is right, and the reader discards it as a tiny frame
  instead of yielding the payload.
\<close>

lemma tiny_frame_read: "readFrame [0x7e, 0x00, 0x01, 0x8a, 0x75] = (TinyFrame, [])"
  by (simp add: readFrame_def frameDelimiter_def checksum_def Let_def)

theorem frame_round_trip_counterexample:
  "written (port (snd (writeFrame
      ((Open \<lparr>unread = [], written = [], write_fails = False\<rparr>)
         \<lparr>wbuf := copy (wbuf (Open \<lparr>unread = [], written = [], write_fails = False\<rparr>)) 3 [0x8a]\<rparr>)
      1))) = [[0x7e, 0x00, 0x01, 0x8a, 0x75]] \<and>
   readFrame [0x7e, 0x00, 0x01, 0x8a, 0x75] = (TinyFrame, []) \<and>
   TinyFrame \<noteq> Frame [0x8a]"
proof -
  let ?dev = "\<lparr>unread = [], written = [], write_fails = False\<rparr>"
  let ?xb = "(Open ?dev)\<lparr>wbuf := copy (wbuf (Open ?dev)) 3 [0x8a]\<rparr>"
  have len: "length (wbuf ?xb) = 65539"
    by (simp add: copy_length Open_wbuf_length)
  have w0: "wbuf ?xb ! 0 = 0x7e"
    using Open_wbuf_delimiter [of ?dev]
    by (simp add: copy_nth_before Open_wbuf_length frameDelimiter_def)
  have payload: "take (nat 1) (drop 3 (wbuf ?xb)) = [0x8a]"
    using copy_payload [of 3 "[0x8a]" "wbuf (Open ?dev)"]
    by (simp add: Open_wbuf_length)
  have "4 + nat 1 \<le> length (wbuf ?xb)"
    using len by simp
  from writeFrame_written [of 1 ?xb, OF _ _ this]
  have "written (port (snd (writeFrame ?xb 1))) =
        written (port ?xb) @
          [[wbuf ?xb ! 0, word_of_int (drop_bit 8 1), word_of_int (1 AND 0xff)] @
           take (nat 1) (drop 3 (wbuf ?xb)) @
           [0xff - checksum (take (nat 1) (drop 3 (wbuf ?xb)))]]"
    by (simp add: Open_port)
  then have "written (port (snd (writeFrame ?xb 1))) = [[0x7e, 0x00, 0x01, 0x8a, 0x75]]"
    unfolding payload w0 by (simp add: Open_port checksum_def)
  then show ?thesis
    using tiny_frame_read by simp
qed

section \<open>Classification of inbound frames\<close>

lemma readFrame_Frame_length:
  assumes "readFrame inp = (Frame buf, rest)"
  shows "2 \<le> length buf"
  using assms
  by (auto simp: readFrame_def Let_def split: list.splits if_splits)

lemma classify_ModemStatus:
  "2 \<le> length buf \<Longrightarrow> buf ! 0 = frameModemStatus \<Longrightarrow>
   classify buf = Some (0, ModemStatus (buf ! 1))"
  by (auto simp: classify_def index_def)

lemma classify_ATCommandResponse:
  "2 \<le> length buf \<Longrightarrow> buf ! 0 = frameATCommandResponse \<Longrightarrow>
   classify buf =
     (if length buf < 5 then None
      else Some (buf ! 1, ATCommandResponse (buf ! 2, buf ! 3) (buf ! 4) (drop 5 buf)))"
  by (simp add: classify_def index_def slice_from_def
      frameATCommandResponse_def frameModemStatus_def)

lemma classify_TransmitStatus:
  "2 \<le> length buf \<Longrightarrow> buf ! 0 = frameZigBeeTransmitStatus \<Longrightarrow>
   classify buf =
     (if length buf < 7 then None
      else Some (buf ! 1,
        TransmitStatus (push_bit 8 (ucast (buf ! 2)) OR ucast (buf ! 3))
          (uint (buf ! 4)) (buf ! 5) (buf ! 6)))"
  by (simp add: classify_def index_def slice_from_def
      frameATCommandResponse_def frameModemStatus_def frameZigBeeTransmitStatus_def)

lemma classify_ReceivePacket:
  "2 \<le> length buf \<Longrightarrow> buf ! 0 = frameZigBeeReceivePacket \<Longrightarrow>
   classify buf =
     (if length buf < 12 then None
      else Some (0, ReceivePacket
         (push_bit 56 (ucast (buf ! 1)) OR push_bit 48 (ucast (buf ! 2)) OR
          push_bit 40 (ucast (buf ! 3)) OR push_bit 32 (ucast (buf ! 4)) OR
          push_bit 24 (ucast (buf ! 5)) OR push_bit 16 (ucast (buf ! 6)) OR
          push_bit 8 (ucast (buf ! 7)) OR ucast (buf ! 8))
         (push_bit 8 (ucast (buf ! 9)) OR ucast (buf ! 10)) (buf ! 11) (drop 12 buf)))"
  by (simp add: classify_def index_def slice_from_def
      frameATCommandResponse_def frameModemStatus_def frameZigBeeTransmitStatus_def
      frameZigBeeReceivePacket_def)

lemma classify_UnknownFrame:
  "2 \<le> length buf \<Longrightarrow> buf ! 0 \<noteq> frameModemStatus \<Longrightarrow>
   buf ! 0 \<noteq> frameATCommandResponse \<Longrightarrow> buf ! 0 \<noteq> frameZigBeeTransmitStatus \<Longrightarrow>
   buf ! 0 \<noteq> frameZigBeeReceivePacket \<Longrightarrow>
   classify buf = Some (0, UnknownFrame buf)"
  by (auto simp: classify_def index_def)

lemma kinds_distinct:
  "frameModemStatus \<noteq> frameATCommandResponse"
  "frameModemStatus \<noteq> frameZigBeeTransmitStatus"
  "frameModemStatus \<noteq> frameZigBeeReceivePacket"
  "frameATCommandResponse \<noteq> frameZigBeeTransmitStatus"
  "frameATCommandResponse \<noteq> frameZigBeeReceivePacket"
  "frameZigBeeTransmitStatus \<noteq> frameZigBeeReceivePacket"
  by (simp_all add: frameATCommandResponse_def frameModemStatus_def
      frameZigBeeTransmitStatus_def frameZigBeeReceivePacket_def)

lemma classify_None_iff:
  assumes "2 \<le> length buf"
  shows "classify buf = None \<longleftrightarrow>
           (buf ! 0 = frameATCommandResponse \<and> length buf < 5) \<or>
           (buf ! 0 = frameZigBeeTransmitStatus \<and> length buf < 7) \<or>
           (buf ! 0 = frameZigBeeReceivePacket \<and> length buf < 12)"
proof -
  consider "buf ! 0 = frameModemStatus" | "buf ! 0 = frameATCommandResponse"
    | "buf ! 0 = frameZigBeeTransmitStatus" | "buf ! 0 = frameZigBeeReceivePacket"
    | "buf ! 0 \<noteq> frameModemStatus" "buf ! 0 \<noteq> frameATCommandResponse"
      "buf ! 0 \<noteq> frameZigBeeTransmitStatus" "buf ! 0 \<noteq> frameZigBeeReceivePacket"
    by blast
  then show ?thesis
  proof cases
    case 1
    then show ?thesis
      using classify_ModemStatus [OF assms 1] kinds_distinct by simp
  next
    case 2
    then show ?thesis
      using classify_ATCommandResponse [OF assms 2] kinds_distinct by simp
  next
    case 3
    then show ?thesis
      using classify_TransmitStatus [OF assms 3] kinds_distinct by simp
  next
    case 4
    then show ?thesis
      using classify_ReceivePacket [OF assms 4] kinds_distinct by simp
  next
    case 5
    then show ?thesis
      using classify_UnknownFrame [OF assms 5] by simp
  qed
qed

lemma readLoop_iter_Frame:
  "readFrame (unread (port xb)) = (Frame buf, rest) \<Longrightarrow>
   readLoop_iter xb =
     (case classify buf of
        None \<Rightarrow> IterPanic
      | Some (fid, ev) \<Rightarrow> dispatch (xb\<lparr>port := (port xb)\<lparr>unread := rest\<rparr>\<rparr>) fid ev)"
  by (simp add: readLoop_iter_def)

text \<open>
  C9. A checksum-valid frame that passes the tiny-frame test has at least 2 payload
  bytes, and that test is the only length check: the classification panics on an index
  out of range exactly for an AT command response of fewer than 5 bytes, a ZigBee
  transmit status of fewer than 7 bytes and a ZigBee receive packet of fewer than 12
  bytes; the iteration, and with it the reader task, then ends in that panic instead of
  discarding the frame.
\<close>

theorem short_frame_panics:
  assumes "readFrame (unread (port xb)) = (Frame buf, rest)"
  shows "2 \<le> length buf \<and>
         (classify buf = None \<longleftrightarrow>
            (buf ! 0 = frameATCommandResponse \<and> length buf < 5) \<or>
            (buf ! 0 = frameZigBeeTransmitStatus \<and> length buf < 7) \<or>
            (buf ! 0 = frameZigBeeReceivePacket \<and> length buf < 12)) \<and>
         (classify buf = None \<longrightarrow> readLoop_iter xb = IterPanic \<and> fst (readLoop xb) = Panic)"
proof -
  have len: "2 \<le> length buf"
    using assms by (rule readFrame_Frame_length)
  have "readLoop_iter xb = IterPanic" if "classify buf = None"
    using readLoop_iter_Frame [OF assms] that by simp
  moreover have "fst (readLoop xb) = Panic" if "readLoop_iter xb = IterPanic"
    using that by (simp add: readLoop.simps [of xb])
  ultimately show ?thesis
    using len classify_None_iff [OF len] by blast
qed


lemma read_short_ATCommandResponse:
  "readFrame [0x7e, 0x00, 0x02, 0x88, 0x01, 0x76] = (Frame [0x88, 0x01], [])"
  by (simp add: readFrame_def frameDelimiter_def checksum_def Let_def)

lemma read_short_TransmitStatus:
  "readFrame [0x7e, 0x00, 0x06, 0x8b, 0x01, 0xff, 0xfe, 0x00, 0x00, 0x76] =
     (Frame [0x8b, 0x01, 0xff, 0xfe, 0x00, 0x00], [])"
  by (simp add: readFrame_def frameDelimiter_def checksum_def Let_def)

lemma read_short_ReceivePacket:
  "readFrame [0x7e, 0x00, 0x03, 0x90, 0x00, 0x13, 0x5c] = (Frame [0x90, 0x00, 0x13], [])"
  by (simp add: readFrame_def frameDelimiter_def checksum_def Let_def)

theorem short_frame_panics_witness:
  "readFrame (unread (port (Open (port_holding [0x7e, 0x00, 0x02, 0x88, 0x01, 0x76])))) =
     (Frame [0x88, 0x01], []) \<and>
   [0x88, 0x01 :: byte] ! 0 = frameATCommandResponse \<and> length [0x88, 0x01 :: byte] < 5 \<and>
   classify [0x88, 0x01] = None \<and>
   readLoop_iter (Open (port_holding [0x7e, 0x00, 0x02, 0x88, 0x01, 0x76])) = IterPanic \<and>
   fst (readLoop (Open (port_holding [0x7e, 0x00, 0x02, 0x88, 0x01, 0x76]))) = Panic \<and>
   readFrame (unread (port (Open (port_holding
       [0x7e, 0x00, 0x06, 0x8b, 0x01, 0xff, 0xfe, 0x00, 0x00, 0x76])))) =
     (Frame [0x8b, 0x01, 0xff, 0xfe, 0x00, 0x00], []) \<and>
   fst (readLoop (Open (port_holding
       [0x7e, 0x00, 0x06, 0x8b, 0x01, 0xff, 0xfe, 0x00, 0x00, 0x76]))) = Panic \<and>
   readFrame (unread (port (Open (port_holding [0x7e, 0x00, 0x03, 0x90, 0x00, 0x13, 0x5c])))) =
     (Frame [0x90, 0x00, 0x13], []) \<and>
   fst (readLoop (Open (port_holding [0x7e, 0x00, 0x03, 0x90, 0x00, 0x13, 0x5c]))) = Panic"
proof -
  let ?A = "Open (port_holding [0x7e, 0x00, 0x02, 0x88, 0x01, 0x76])"
  let ?T = "Open (port_holding [0x7e, 0x00, 0x06, 0x8b, 0x01, 0xff, 0xfe, 0x00, 0x00, 0x76])"
  let ?R = "Open (port_holding [0x7e, 0x00, 0x03, 0x90, 0x00, 0x13, 0x5c])"
  have a: "readFrame (unread (port ?A)) = (Frame [0x88, 0x01], [])"
    by (simp add: Open_port read_short_ATCommandResponse)
  have t: "readFrame (unread (port ?T)) = (Frame [0x8b, 0x01, 0xff, 0xfe, 0x00, 0x00], [])"
    by (simp add: Open_port read_short_TransmitStatus)
  have r: "readFrame (unread (port ?R)) = (Frame [0x90, 0x00, 0x13], [])"
    by (simp add: Open_port read_short_ReceivePacket)
  have ka: "[0x88, 0x01 :: byte] ! 0 = frameATCommandResponse \<and> length [0x88, 0x01 :: byte] < 5"
    by (simp add: frameATCommandResponse_def)
  have kt: "[0x8b, 0x01, 0xff, 0xfe, 0x00, 0x00 :: byte] ! 0 = frameZigBeeTransmitStatus \<and>
            length [0x8b, 0x01, 0xff, 0xfe, 0x00, 0x00 :: byte] < 7"
    by (simp add: frameZigBeeTransmitStatus_def)
  have kr: "[0x90, 0x00, 0x13 :: byte] ! 0 = frameZigBeeReceivePacket \<and>
            length [0x90, 0x00, 0x13 :: byte] < 12"
    by (simp add: frameZigBeeReceivePacket_def)
  from short_frame_panics [OF a] ka
  have pa: "classify [0x88, 0x01] = None \<and> readLoop_iter ?A = IterPanic \<and>
            fst (readLoop ?A) = Panic"
    by blast
  from short_frame_panics [OF t] kt have pt: "fst (readLoop ?T) = Panic"
    by blast
  from short_frame_panics [OF r] kr have pr: "fst (readLoop ?R) = Panic"
    by blast
  from a t r ka pa pt pr show ?thesis
    by simp
qed

section \<open>Routing of classified frames\<close>

lemma dispatch_waiter:
  "k \<noteq> 0 \<Longrightarrow> idMap xb k = Some ch \<Longrightarrow>
   dispatch xb k ev =
     Again (if length (items ch) < capacity ch
            then xb\<lparr>idMap := (idMap xb)(k \<mapsto> ch\<lparr>items := items ch @ [ev]\<rparr>)\<rparr>
            else xb\<lparr>logs := logs xb @ [LogInternalChanFull]\<rparr>)"
  by (simp add: dispatch_def trySend_def)

lemma dispatch_global:
  "k = 0 \<or> idMap xb k = None \<Longrightarrow> \<not> eventChClosed xb \<Longrightarrow>
   dispatch xb k ev =
     Again (if length (items (eventCh xb)) < capacity (eventCh xb)
            then xb\<lparr>eventCh := (eventCh xb)\<lparr>items := items (eventCh xb) @ [ev]\<rparr>\<rparr>
            else xb\<lparr>logs := logs xb @ [LogEventChanFull]\<rparr>)"
  by (auto simp: dispatch_def trySend_def)

text \<open>
  C2 (as amended). For a checksum-valid frame that the reader classifies as event \<open>ev\<close>
  with frame identifier \<open>k\<close>: when \<open>k\<close> is not 0 and a waiter is registered for it,
  the event is queued on that waiter's channel if its slot is free and is dropped with
  the diagnostic "internal event channel full" otherwise; either way the event channel
  and the other waiters stay as they were. When \<open>k\<close> is 0 or no waiter is registered
  for it, and the event channel has not been closed, the event is queued on the event
  channel if it holds fewer events than its capacity and is dropped with the diagnostic
  "event channel full" otherwise; the waiters stay as they were. An AT command response
  carries its second byte as \<open>k\<close>; a modem status and a receive packet always have
  \<open>k = 0\<close>, whatever waiters are registered.
\<close>

theorem reader_routing:
  assumes rf: "readFrame (unread (port xb)) = (Frame buf, rest)"
    and cl: "classify buf = Some (k, ev)"
    and xb1: "xb1 = xb\<lparr>port := (port xb)\<lparr>unread := rest\<rparr>\<rparr>"
  shows "(k \<noteq> 0 \<and> idMap xb k = Some ch \<longrightarrow>
            readLoop_iter xb =
              Again (if length (items ch) < capacity ch
                     then xb1\<lparr>idMap := (idMap xb)(k \<mapsto> ch\<lparr>items := items ch @ [ev]\<rparr>)\<rparr>
                     else xb1\<lparr>logs := logs xb @ [LogInternalChanFull]\<rparr>)) \<and>
         ((k = 0 \<or> idMap xb k = None) \<and> \<not> eventChClosed xb \<longrightarrow>
            readLoop_iter xb =
              Again (if length (items (eventCh xb)) < capacity (eventCh xb)
                     then xb1\<lparr>eventCh := (eventCh xb)\<lparr>items := items (eventCh xb) @ [ev]\<rparr>\<rparr>
                     else xb1\<lparr>logs := logs xb @ [LogEventChanFull]\<rparr>)) \<and>
         (buf ! 0 = frameATCommandResponse \<longrightarrow>
            k = buf ! 1 \<and> ev = ATCommandResponse (buf ! 2, buf ! 3) (buf ! 4) (drop 5 buf)) \<and>
         (buf ! 0 = frameModemStatus \<longrightarrow> k = 0 \<and> ev = ModemStatus (buf ! 1)) \<and>
         (buf ! 0 = frameZigBeeReceivePacket \<longrightarrow>
            k = 0 \<and> (\<exists>a n. ev = ReceivePacket a n (buf ! 11) (drop 12 buf)))"
proof -
  have len: "2 \<le> length buf"
    using rf by (rule readFrame_Frame_length)
  have iter: "readLoop_iter xb = dispatch xb1 k ev"
    using readLoop_iter_Frame [OF rf] cl xb1 by simp
  have w: "readLoop_iter xb =
             Again (if length (items ch) < capacity ch
                    then xb1\<lparr>idMap := (idMap xb)(k \<mapsto> ch\<lparr>items := items ch @ [ev]\<rparr>)\<rparr>
                    else xb1\<lparr>logs := logs xb @ [LogInternalChanFull]\<rparr>)"
    if "k \<noteq> 0" "idMap xb k = Some ch"
    using that dispatch_waiter [of k xb1 ch ev] iter xb1 by simp
  have g: "readLoop_iter xb =
             Again (if length (items (eventCh xb)) < capacity (eventCh xb)
                    then xb1\<lparr>eventCh := (eventCh xb)\<lparr>items := items (eventCh xb) @ [ev]\<rparr>\<rparr>
                    else xb1\<lparr>logs := logs xb @ [LogEventChanFull]\<rparr>)"
    if "k = 0 \<or> idMap xb k = None" "\<not> eventChClosed xb"
    using that dispatch_global [of k xb1 ev] iter xb1 by simp
  have at: "k = buf ! 1 \<and> ev = ATCommandResponse (buf ! 2, buf ! 3) (buf ! 4) (drop 5 buf)"
    if "buf ! 0 = frameATCommandResponse"
    using classify_ATCommandResponse [OF len that] cl by (simp split: if_splits)
  have ms: "k = 0 \<and> ev = ModemStatus (buf ! 1)" if "buf ! 0 = frameModemStatus"
    using classify_ModemStatus [OF len that] cl by simp
  have rp: "k = 0 \<and> (\<exists>a n. ev = ReceivePacket a n (buf ! 11) (drop 12 buf))"
    if "buf ! 0 = frameZigBeeReceivePacket"
    using classify_ReceivePacket [OF len that] cl by (simp split: if_splits)
  from w g at ms rp show ?thesis
    by blast
qed


lemma read_ATCommandResponse_example:
  "readFrame [0x7e, 0x00, 0x05, 0x88, 0x01, 0x53, 0x48, 0x00, 0xdb] =
     (Frame [0x88, 0x01, 0x53, 0x48, 0x00], [])"
  by (simp add: readFrame_def frameDelimiter_def checksum_def Let_def)

lemma read_ModemStatus_example:
  "readFrame [0x7e, 0x00, 0x02, 0x8a, 0x02, 0x73] = (Frame [0x8a, 0x02], [])"
  by (simp add: readFrame_def frameDelimiter_def checksum_def Let_def)

lemma classify_ATCommandResponse_example:
  "classify [0x88, 0x01, 0x53, 0x48, 0x00] = Some (1, ATCommandResponse (0x53, 0x48) 0 [])"
  using classify_ATCommandResponse [of "[0x88, 0x01, 0x53, 0x48, 0x00]"]
  by (simp add: frameATCommandResponse_def)

lemma classify_ModemStatus_example:
  "classify [0x8a, 0x02] = Some (0, ModemStatus 2)"
  using classify_ModemStatus [of "[0x8a, 0x02]"]
  by (simp add: frameModemStatus_def)

theorem reader_routing_witness:
  "readFrame (unread (port (registerListener
      (Open (port_holding [0x7e, 0x00, 0x05, 0x88, 0x01, 0x53, 0x48, 0x00, 0xdb])) 1))) =
     (Frame [0x88, 0x01, 0x53, 0x48, 0x00], []) \<and>
   classify [0x88, 0x01, 0x53, 0x48, 0x00] = Some (1, ATCommandResponse (0x53, 0x48) 0 []) \<and>
   idMap (registerListener
      (Open (port_holding [0x7e, 0x00, 0x05, 0x88, 0x01, 0x53, 0x48, 0x00, 0xdb])) 1) 1 =
     Some (make_chan 1) \<and>
   readLoop_iter (registerListener
      (Open (port_holding [0x7e, 0x00, 0x05, 0x88, 0x01, 0x53, 0x48, 0x00, 0xdb])) 1) =
     Again ((Open (port_holding []))
       \<lparr>idMap := [1 \<mapsto> \<lparr>items = [ATCommandResponse (0x53, 0x48) 0 []], capacity = 1\<rparr>]\<rparr>) \<and>
   readFrame (unread (port (registerListener
      (Open (port_holding [0x7e, 0x00, 0x02, 0x8a, 0x02, 0x73])) 1))) =
     (Frame [0x8a, 0x02], []) \<and>
   classify [0x8a, 0x02] = Some (0, ModemStatus 2) \<and>
   \<not> eventChClosed (registerListener
      (Open (port_holding [0x7e, 0x00, 0x02, 0x8a, 0x02, 0x73])) 1) \<and>
   readLoop_iter (registerListener
      (Open (port_holding [0x7e, 0x00, 0x02, 0x8a, 0x02, 0x73])) 1) =
     Again ((Open (port_holding []))
       \<lparr>eventCh := \<lparr>items = [ModemStatus 2], capacity = 8\<rparr>,
        idMap := [1 \<mapsto> make_chan 1]\<rparr>)"
proof -
  let ?A = "registerListener
      (Open (port_holding [0x7e, 0x00, 0x05, 0x88, 0x01, 0x53, 0x48, 0x00, 0xdb])) 1"
  let ?M = "registerListener (Open (port_holding [0x7e, 0x00, 0x02, 0x8a, 0x02, 0x73])) 1"
  have ra: "readFrame (unread (port ?A)) = (Frame [0x88, 0x01, 0x53, 0x48, 0x00], [])"
    by (simp add: registerListener_def Open_port read_ATCommandResponse_example)
  have rm: "readFrame (unread (port ?M)) = (Frame [0x8a, 0x02], [])"
    by (simp add: registerListener_def Open_port read_ModemStatus_example)
  have wa: "idMap ?A 1 = Some (make_chan 1)"
    by (simp add: registerListener_def)
  have om: "\<not> eventChClosed ?M"
    by (simp add: registerListener_def Open_def)
  have "readLoop_iter ?A =
          Again (if length (items (make_chan 1)) < capacity (make_chan 1)
                 then (?A\<lparr>port := (port ?A)\<lparr>unread := []\<rparr>\<rparr>)
                        \<lparr>idMap := (idMap ?A)(1 \<mapsto> (make_chan 1)
                           \<lparr>items := items (make_chan 1) @
                              [ATCommandResponse (0x53, 0x48) 0 []]\<rparr>)\<rparr>
                 else (?A\<lparr>port := (port ?A)\<lparr>unread := []\<rparr>\<rparr>)
                        \<lparr>logs := logs ?A @ [LogInternalChanFull]\<rparr>)"
    using reader_routing [OF ra classify_ATCommandResponse_example refl, of "make_chan 1"] wa
    by simp
  then have ia: "readLoop_iter ?A =
      Again ((Open (port_holding []))
        \<lparr>idMap := [1 \<mapsto> \<lparr>items = [ATCommandResponse (0x53, 0x48) 0 []], capacity = 1\<rparr>]\<rparr>)"
    by (simp add: registerListener_def make_chan_def Open_def)
  have "readLoop_iter ?M =
          Again (if length (items (eventCh ?M)) < capacity (eventCh ?M)
                 then (?M\<lparr>port := (port ?M)\<lparr>unread := []\<rparr>\<rparr>)
                        \<lparr>eventCh := (eventCh ?M)
                           \<lparr>items := items (eventCh ?M) @ [ModemStatus 2]\<rparr>\<rparr>
                 else (?M\<lparr>port := (port ?M)\<lparr>unread := []\<rparr>\<rparr>)
                        \<lparr>logs := logs ?M @ [LogEventChanFull]\<rparr>)"
    using reader_routing [OF rm classify_ModemStatus_example refl] om
    by simp
  then have im: "readLoop_iter ?M =
      Again ((Open (port_holding []))
        \<lparr>eventCh := \<lparr>items = [ModemStatus 2], capacity = 8\<rparr>,
         idMap := [1 \<mapsto> make_chan 1]\<rparr>)"
    by (simp add: registerListener_def make_chan_def Open_def)
  from ra classify_ATCommandResponse_example wa ia rm classify_ModemStatus_example om im
  show ?thesis
    by (intro conjI)
qed

text \<open>
  The claim as stated fails when the destination channel is full. A driver is opened on
  a stream of nine valid modem status frames and nothing receives from its event
  channel: the first eight events fill the channel, and the ninth, \<open>ModemStatus 2\<close>, is
  logged as dropped and delivered nowhere.
\<close>

lemma read_ModemStatus_zero:
  "readFrame ([0x7e, 0x00, 0x02, 0x8a, 0x00, 0x75] @ rest) = (Frame [0x8a, 0x00], rest)"
  by (simp add: readFrame_def frameDelimiter_def checksum_def Let_def)

lemma readLoop_iter_ModemStatus_zero:
  assumes "unread (port xb) = [0x7e, 0x00, 0x02, 0x8a, 0x00, 0x75] @ rest"
    and "\<not> eventChClosed xb" and "length (items (eventCh xb)) < capacity (eventCh xb)"
  shows "readLoop_iter xb =
           Again (xb\<lparr>port := (port xb)\<lparr>unread := rest\<rparr>,
                     eventCh := (eventCh xb)\<lparr>items := items (eventCh xb) @ [ModemStatus 0]\<rparr>\<rparr>)"
proof -
  have rf: "readFrame (unread (port xb)) = (Frame [0x8a, 0x00], rest)"
    unfolding assms(1) by (rule read_ModemStatus_zero)
  have cl: "classify [0x8a, 0x00] = Some (0, ModemStatus 0)"
    using classify_ModemStatus [of "[0x8a, 0x00]"] by (simp add: frameModemStatus_def)
  show ?thesis
    using readLoop_iter_Frame [OF rf] cl assms(2,3)
    by (simp add: dispatch_global)
qed

text \<open>With nothing receiving from the event channel, \<open>n\<close> modem status frames fill
  \<open>n\<close> of its free slots.\<close>

lemma readLoop_ModemStatus_zeros:
  assumes "unread (port xb) = concat (replicate n [0x7e, 0x00, 0x02, 0x8a, 0x00, 0x75]) @ rest"
    and "\<not> eventChClosed xb"
    and "length (items (eventCh xb)) + n \<le> capacity (eventCh xb)"
  shows "readLoop xb =
           readLoop (xb\<lparr>port := (port xb)\<lparr>unread := rest\<rparr>,
                        eventCh := (eventCh xb)
                          \<lparr>items := items (eventCh xb) @ replicate n (ModemStatus 0)\<rparr>\<rparr>)"
  using assms
proof (induction n arbitrary: xb)
  case 0
  then have "xb\<lparr>port := (port xb)\<lparr>unread := rest\<rparr>,
                eventCh := (eventCh xb)
                  \<lparr>items := items (eventCh xb) @ replicate 0 (ModemStatus 0)\<rparr>\<rparr> = xb"
    by simp
  then show ?case by simp
next
  case (Suc n)
  let ?xb' = "xb\<lparr>port := (port xb)
                   \<lparr>unread := concat (replicate n [0x7e, 0x00, 0x02, 0x8a, 0x00, 0x75]) @ rest\<rparr>,
                 eventCh := (eventCh xb)\<lparr>items := items (eventCh xb) @ [ModemStatus 0]\<rparr>\<rparr>"
  have u: "unread (port xb) =
             [0x7e, 0x00, 0x02, 0x8a, 0x00, 0x75] @
             (concat (replicate n [0x7e, 0x00, 0x02, 0x8a, 0x00, 0x75]) @ rest)"
    using Suc.prems(1) by simp
  have "readLoop_iter xb = Again ?xb'"
    using readLoop_iter_ModemStatus_zero [OF u Suc.prems(2)] Suc.prems(3) by simp
  then have step: "readLoop xb = readLoop ?xb'"
    by (simp add: readLoop.simps [of xb])
  have "readLoop ?xb' =
          readLoop (?xb'\<lparr>port := (port ?xb')\<lparr>unread := rest\<rparr>,
                        eventCh := (eventCh ?xb')
                          \<lparr>items := items (eventCh ?xb') @ replicate n (ModemStatus 0)\<rparr>\<rparr>)"
    using Suc.prems(2,3) by (intro Suc.IH) simp_all
  with step show ?case
    by simp
qed

theorem reader_routing_counterexample:
  "readLoop (Open (port_holding
      (concat (replicate 8 [0x7e, 0x00, 0x02, 0x8a, 0x00, 0x75]) @
       [0x7e, 0x00, 0x02, 0x8a, 0x02, 0x73]))) =
   (Return () (Some EOF),
    (Open (port_holding []))
      \<lparr>eventCh := \<lparr>items = replicate 8 (ModemStatus 0), capacity = 8\<rparr>,
       logs := [LogEventChanFull]\<rparr>)"
proof -
  let ?xb = "Open (port_holding
      (concat (replicate 8 [0x7e, 0x00, 0x02, 0x8a, 0x00, 0x75]) @
       [0x7e, 0x00, 0x02, 0x8a, 0x02, 0x73]))"
  let ?full = "(Open (port_holding [0x7e, 0x00, 0x02, 0x8a, 0x02, 0x73]))
      \<lparr>eventCh := \<lparr>items = replicate 8 (ModemStatus 0), capacity = 8\<rparr>\<rparr>"
  let ?end = "(Open (port_holding []))
      \<lparr>eventCh := \<lparr>items = replicate 8 (ModemStatus 0), capacity = 8\<rparr>,
       logs := [LogEventChanFull]\<rparr>"
  have "readLoop ?xb =
          readLoop (?xb\<lparr>port := (port ?xb)\<lparr>unread := [0x7e, 0x00, 0x02, 0x8a, 0x02, 0x73]\<rparr>,
             eventCh := (eventCh ?xb)
               \<lparr>items := items (eventCh ?xb) @ replicate 8 (ModemStatus 0)\<rparr>\<rparr>)"
    by (rule readLoop_ModemStatus_zeros) (simp_all add: Open_def make_chan_def)
  then have a: "readLoop ?xb = readLoop ?full"
    by (simp add: Open_def make_chan_def)
  have "readFrame (unread (port ?full)) = (Frame [0x8a, 0x02], [])"
    by (simp add: Open_port read_ModemStatus_example)
  from readLoop_iter_Frame [OF this] classify_ModemStatus_example
  have "readLoop_iter ?full = Again ?end"
    by (simp add: dispatch_def trySend_def Open_def)
  then have b: "readLoop ?full = readLoop ?end"
    by (simp add: readLoop.simps [of ?full])
  have "readLoop_iter ?end = Exit EOF ?end"
    by (simp add: readLoop_iter_def readFrame_def Open_def)
  then have c: "readLoop ?end = (Return () (Some EOF), ?end)"
    by (simp add: readLoop.simps [of ?end])
  from a b c show ?thesis by simp
qed

section \<open>AT command exchanges\<close>

lemma nextFrameID_eq:
  "nextFrameID xb =
     (if frameID xb + 1 = 0 then 1 else frameID xb + 1,
      xb\<lparr>frameID := (if frameID xb + 1 = 0 then 1 else frameID xb + 1)\<rparr>)"
  by (simp add: nextFrameID_def Let_def)

lemma writeFrame_fst:
  "0 \<le> n \<Longrightarrow> n \<le> 65535 \<Longrightarrow>
   fst (writeFrame xb n) = (if write_fails (port xb) then Some ErrPortWrite else None)"
  by (simp add: writeFrame_def Let_def)


lemma nextFrameID_fields:
  "nextFrameID xb = (fid, xb1) \<Longrightarrow>
   port xb1 = port xb \<and> wbuf xb1 = wbuf xb \<and> idMap xb1 = idMap xb \<and>
   eventCh xb1 = eventCh xb \<and> frameID xb1 = fid \<and>
   fid = (if frameID xb + 1 = 0 then 1 else frameID xb + 1)"
  by (auto simp: nextFrameID_def Let_def split: if_splits)

text \<open>What \<open>atCommand\<close> returns on a port that accepts the write.\<close>

lemma atCommand_fst:
  assumes ok: "\<not> write_fails (port xb)" and len: "length val \<le> 65528"
  shows "fst (atCommand xb cmd val rx) =
           (case rx of
              None \<Rightarrow> Blocked
            | Some (ATCommandResponse resCmd resStatus resData) \<Rightarrow>
                (case validateATResponse cmd resCmd resStatus of
                   Some e \<Rightarrow> Return [] (Some e)
                 | None \<Rightarrow> Return resData None)
            | Some _ \<Rightarrow> Return [] (Some ErrWrongFrame))"
proof -
  obtain fid xb1 where nf: "nextFrameID xb = (fid, xb1)"
    by (cases "nextFrameID xb")
  let ?w = "(wbuf xb1)[3 := frameATCommand, 4 := fid, 5 := fst cmd, 6 := snd cmd]"
  let ?xb2 = "registerListener (xb1\<lparr>wbuf := if length val \<noteq> 0 then copy ?w 7 val else ?w\<rparr>) fid"
  obtain err xb3 where wf: "writeFrame ?xb2 (4 + int (length val)) = (err, xb3)"
    by (cases "writeFrame ?xb2 (4 + int (length val))")
  have "port ?xb2 = port xb"
    using nextFrameID_fields [OF nf] by (simp add: registerListener_def)
  then have "fst (writeFrame ?xb2 (4 + int (length val))) = None"
    using ok len by (simp add: writeFrame_fst)
  with wf have err: "err = None" by simp
  have "atCommand xb cmd val rx =
          (case rx of
             None \<Rightarrow> (Blocked, xb3)
           | Some (ATCommandResponse resCmd resStatus resData) \<Rightarrow>
               (case validateATResponse cmd resCmd resStatus of
                  Some e \<Rightarrow> (Return [] (Some e), unregisterListener xb3 fid)
                | None \<Rightarrow> (Return resData None, unregisterListener xb3 fid))
           | Some _ \<Rightarrow> (Return [] (Some ErrWrongFrame), unregisterListener xb3 fid))"
    unfolding atCommand_def nf Let_def prod.case wf err
    using len by (simp split del: if_split cong: option.case_cong Event.case_cong)
  then show ?thesis
    by (simp split: option.splits Event.splits)
qed

lemma atCommand_error_nil:
  assumes "fst (atCommand xb cmd val rx) = Return b (Some e)"
  shows "b = []"
proof -
  obtain fid xb1 where nf: "nextFrameID xb = (fid, xb1)"
    by (cases "nextFrameID xb")
  let ?w = "(wbuf xb1)[3 := frameATCommand, 4 := fid, 5 := fst cmd, 6 := snd cmd]"
  let ?xb2 = "registerListener (xb1\<lparr>wbuf := if length val \<noteq> 0 then copy ?w 7 val else ?w\<rparr>) fid"
  obtain err xb3 where wf: "writeFrame ?xb2 (4 + int (length val)) = (err, xb3)"
    by (cases "writeFrame ?xb2 (4 + int (length val))")
  show ?thesis
  proof (cases "length val > 65536 - 8")
    case True
    with assms show ?thesis by (simp add: atCommand_def)
  next
    case False
    then have "atCommand xb cmd val rx =
          (case err of
             Some e \<Rightarrow> (Return [] (Some e), unregisterListener xb3 fid)
           | None \<Rightarrow>
              (case rx of
                 None \<Rightarrow> (Blocked, xb3)
               | Some (ATCommandResponse resCmd resStatus resData) \<Rightarrow>
                   (case validateATResponse cmd resCmd resStatus of
                      Some e \<Rightarrow> (Return [] (Some e), unregisterListener xb3 fid)
                    | None \<Rightarrow> (Return resData None, unregisterListener xb3 fid))
               | Some _ \<Rightarrow> (Return [] (Some ErrWrongFrame), unregisterListener xb3 fid)))"
      unfolding atCommand_def nf Let_def prod.case wf
      by (simp split del: if_split cong: option.case_cong Event.case_cong)
    with assms show ?thesis
      by (simp split: option.splits Event.splits)
  qed
qed


text \<open>
  C8. Whenever the AT exchange for \<open>AP\<close> fails, \<open>atCommand\<close> returns a nil slice with
  its error, and \<open>APIEnabled\<close>, which reads the first byte of that slice before it
  looks at the error, panics instead of returning the error.
\<close>

theorem APIEnabled_panics_on_error:
  assumes "fst (atCommand xb atAPIEnable [] rx) = Return b (Some e)"
  shows "b = [] \<and> fst (APIEnabled xb rx) = Panic"
proof -
  have nil: "b = []"
    using assms by (rule atCommand_error_nil)
  obtain xb1 where "atCommand xb atAPIEnable [] rx = (Return [] (Some e), xb1)"
    using assms nil by (cases "atCommand xb atAPIEnable [] rx") simp
  then have "fst (APIEnabled xb rx) = Panic"
    by (simp add: APIEnabled_def index_def)
  with nil show ?thesis by simp
qed

theorem APIEnabled_panics_on_error_witness:
  "fst (atCommand (Open (port_holding [])) atAPIEnable []
          (Some (ATCommandResponse atAPIEnable CSError []))) = Return [] (Some ErrResponse) \<and>
   fst (APIEnabled (Open (port_holding []))
          (Some (ATCommandResponse atAPIEnable CSError []))) = Panic \<and>
   fst (atCommand (Open \<lparr>unread = [], written = [], write_fails = True\<rparr>) atAPIEnable [] None) =
     Return [] (Some ErrPortWrite) \<and>
   fst (APIEnabled (Open \<lparr>unread = [], written = [], write_fails = True\<rparr>) None) = Panic"
proof -
  have a: "fst (atCommand (Open (port_holding [])) atAPIEnable []
          (Some (ATCommandResponse atAPIEnable CSError []))) = Return [] (Some ErrResponse)"
    by (simp add: atCommand_fst Open_port validateATResponse_def CSError_def CSOK_def)
  have b: "fst (atCommand (Open \<lparr>unread = [], written = [], write_fails = True\<rparr>)
          atAPIEnable [] None) = Return [] (Some ErrPortWrite)"
    by (simp add: atCommand_def nextFrameID_eq Let_def registerListener_def writeFrame_def
        Open_port split: prod.splits)
  from APIEnabled_panics_on_error [OF a] APIEnabled_panics_on_error [OF b] a b
  show ?thesis by simp
qed

text \<open>The number a 64-bit \<open>int\<close> holds after the conversion from a \<open>uint64\<close>.\<close>

lemma sint_uint64:
  "sint (w :: 64 word) = (if w < 2 ^ 63 then uint w else uint w - 2 ^ 64)"
proof -
  have lt: "w < 2 ^ 63 \<longleftrightarrow> uint w < 2 ^ 63"
    by (simp add: word_less_def)
  have range: "0 \<le> uint w" "uint w < 2 ^ 64"
    using uint_lt2p [of w] by simp_all
  have "uint w div 2 ^ 63 = (if uint w < 2 ^ 63 then 0 else 1)"
    using range
    by (auto simp: div_pos_pos_trivial intro!: int_div_pos_eq [where r = "uint w - 2 ^ 63"])
  then have b: "bit (uint w) 63 \<longleftrightarrow> \<not> uint w < 2 ^ 63"
    by (simp add: bit_iff_odd)
  have "sint w = signed_take_bit 63 (uint w)"
    by (simp add: sint_uint)
  also have "\<dots> = take_bit 64 (uint w) - 2 ^ 64 * of_bool (bit (uint w) 63)"
    using signed_take_bit_eq_take_bit_minus [of 63 "uint w"] by simp
  also have "take_bit 64 (uint w) = uint w"
    using range by (simp add: take_bit_int_eq_self)
  finally show ?thesis
    using b lt by simp
qed

text \<open>
  C6 (as amended). When the AT exchange for \<open>BD\<close> succeeds with data \<open>b\<close>,
  \<open>InterfaceDataRate\<close> returns the entry of the table of standard rates at the
  big-endian value of \<open>b\<close> if that value is at most 7. Otherwise it returns that value
  converted to \<open>int\<close>: the value itself while it is below \<open>2 ^ 63\<close>, and the value
  less \<open>2 ^ 64\<close>, a negative number, from \<open>2 ^ 63\<close> on. A value of 3 gives 9600, and
  a value of 0x384 gives 900.
\<close>

theorem InterfaceDataRate_value:
  assumes "fst (atCommand xb atInterfaceDataRate [] rx) = Return b None"
  shows "fst (InterfaceDataRate xb rx) =
           Return (if decodeUint b \<le> 7
                   then [1200, 2400, 4800, 9600, 19200, 38400, 57600, 115200] !
                          unat (decodeUint b)
                   else if decodeUint b < 2 ^ 63 then uint (decodeUint b)
                   else uint (decodeUint b) - 2 ^ 64) None \<and>
         (decodeUint b = 3 \<longrightarrow> fst (InterfaceDataRate xb rx) = Return 9600 None) \<and>
         (decodeUint b = 0x384 \<longrightarrow> fst (InterfaceDataRate xb rx) = Return 900 None)"
proof -
  obtain xb1 where at: "atCommand xb atInterfaceDataRate [] rx = (Return b None, xb1)"
    using assms by (cases "atCommand xb atInterfaceDataRate [] rx") simp
  have "fst (InterfaceDataRate xb rx) =
           Return (if decodeUint b \<le> 7
                   then [1200, 2400, 4800, 9600, 19200, 38400, 57600, 115200] !
                          unat (decodeUint b)
                   else sint (decodeUint b)) None"
    using at by (simp add: InterfaceDataRate_def Let_def standardDataRates_def)
  then have main: "fst (InterfaceDataRate xb rx) =
           Return (if decodeUint b \<le> 7
                   then [1200, 2400, 4800, 9600, 19200, 38400, 57600, 115200] !
                          unat (decodeUint b)
                   else if decodeUint b < 2 ^ 63 then uint (decodeUint b)
                   else uint (decodeUint b) - 2 ^ 64) None"
    by (simp only: sint_uint64)
  have three: "fst (InterfaceDataRate xb rx) = Return 9600 None" if "decodeUint b = 3"
    using main that by simp
  have nonstd: "fst (InterfaceDataRate xb rx) = Return 900 None" if "decodeUint b = 0x384"
    using main that by simp
  from main three nonstd show ?thesis
    by (intro conjI impI)
qed

lemma decodeUint_examples:
  "decodeUint [0x03] = 3" "decodeUint [0x00, 0x00, 0x03, 0x84] = 0x384"
  "decodeUint [0x03, 0x84] = 0x384"
  "decodeUint [0xff, 0xff, 0xff, 0xff, 0xff, 0xff, 0xff, 0xff] = 0xffffffffffffffff"
  by (simp_all add: decodeUint_def)

lemma atCommand_OK:
  assumes "\<not> write_fails (port xb)"
  shows "fst (atCommand xb cmd [] (Some (ATCommandResponse cmd CSOK d))) = Return d None"
  using assms by (simp add: atCommand_fst validateATResponse_def)

theorem InterfaceDataRate_value_witness:
  "fst (atCommand (Open (port_holding [])) atInterfaceDataRate []
          (Some (ATCommandResponse atInterfaceDataRate CSOK [0x03]))) = Return [0x03] None \<and>
   decodeUint [0x03] = 3 \<and>
   fst (InterfaceDataRate (Open (port_holding []))
          (Some (ATCommandResponse atInterfaceDataRate CSOK [0x03]))) = Return 9600 None \<and>
   fst (atCommand (Open (port_holding [])) atInterfaceDataRate []
          (Some (ATCommandResponse atInterfaceDataRate CSOK [0x00, 0x00, 0x03, 0x84]))) =
     Return [0x00, 0x00, 0x03, 0x84] None \<and>
   decodeUint [0x00, 0x00, 0x03, 0x84] = 0x384 \<and>
   fst (InterfaceDataRate (Open (port_holding []))
          (Some (ATCommandResponse atInterfaceDataRate CSOK [0x00, 0x00, 0x03, 0x84]))) =
     Return 900 None \<and>
   fst (InterfaceDataRate (Open (port_holding []))
          (Some (ATCommandResponse atInterfaceDataRate CSOK [0x03, 0x84]))) = Return 900 None"
proof -
  let ?xb = "Open (port_holding [])"
  have ok: "\<not> write_fails (port ?xb)" by (simp add: Open_port)
  note a = atCommand_OK [OF ok, of atInterfaceDataRate "[0x03]"]
  note b = atCommand_OK [OF ok, of atInterfaceDataRate "[0x00, 0x00, 0x03, 0x84]"]
  note c = atCommand_OK [OF ok, of atInterfaceDataRate "[0x03, 0x84]"]
  from InterfaceDataRate_value [OF a] InterfaceDataRate_value [OF b]
    InterfaceDataRate_value [OF c] a b decodeUint_examples
  show ?thesis by simp
qed

text \<open>
  The claim as stated fails from \<open>2 ^ 63\<close> on: for the successful response with data
  \<open>FF FF FF FF FF FF FF FF\<close> the decoded value is \<open>2 ^ 64 - 1\<close>, and the call returns
  \<open>-1\<close>.
\<close>

theorem InterfaceDataRate_value_counterexample:
  "fst (atCommand (Open (port_holding [])) atInterfaceDataRate []
          (Some (ATCommandResponse atInterfaceDataRate CSOK
             [0xff, 0xff, 0xff, 0xff, 0xff, 0xff, 0xff, 0xff]))) =
     Return [0xff, 0xff, 0xff, 0xff, 0xff, 0xff, 0xff, 0xff] None \<and>
   uint (decodeUint [0xff, 0xff, 0xff, 0xff, 0xff, 0xff, 0xff, 0xff]) = 18446744073709551615 \<and>
   fst (InterfaceDataRate (Open (port_holding []))
          (Some (ATCommandResponse atInterfaceDataRate CSOK
             [0xff, 0xff, 0xff, 0xff, 0xff, 0xff, 0xff, 0xff]))) = Return (- 1) None"
proof -
  let ?xb = "Open (port_holding [])"
  let ?d = "[0xff, 0xff, 0xff, 0xff, 0xff, 0xff, 0xff, 0xff :: byte]"
  have ok: "\<not> write_fails (port ?xb)" by (simp add: Open_port)
  note a = atCommand_OK [OF ok, of atInterfaceDataRate ?d]
  then obtain xb1 where at:
    "atCommand ?xb atInterfaceDataRate [] (Some (ATCommandResponse atInterfaceDataRate CSOK ?d)) =
       (Return ?d None, xb1)"
    by (cases "atCommand ?xb atInterfaceDataRate []
                 (Some (ATCommandResponse atInterfaceDataRate CSOK ?d))") simp
  have r: "fst (InterfaceDataRate ?xb (Some (ATCommandResponse atInterfaceDataRate CSOK ?d))) =
             Return (- 1) None"
    using at by (simp add: InterfaceDataRate_def Let_def decodeUint_examples)
  have u: "uint (decodeUint ?d) = 18446744073709551615"
    by (simp add: decodeUint_examples)
  from a u r show ?thesis by (intro conjI)
qed










section \<open>Size limit of transmit requests\<close>

lemma Transmit_too_long:
  "65516 < length data \<Longrightarrow>
   Transmit xb dest net broadcastRadius options data =
     (Return () (Some (ErrDataTooLong (length data))), xb)"
  by (simp add: Transmit_def)

lemma Transmit_written:
  assumes data: "length data \<le> 65516" and len: "length (wbuf xb) = 65539"
    and ok: "\<not> write_fails (port xb)"
  shows "\<exists>fr xb'. Transmit xb dest net broadcastRadius options data = (Return () None, xb') \<and>
           written (port xb') = written (port xb) @ [fr] \<and>
           length fr = 4 + 14 + length data"
proof -
  obtain fid xb1 where nf: "nextFrameID xb = (fid, xb1)"
    by (cases "nextFrameID xb")
  note fields = nextFrameID_fields [OF nf]
  let ?w = "(wbuf xb1)
              [3 := frameZigBeeTransmitRequest,
               4 := fid,
               5 := ucast (drop_bit 56 dest),
               6 := ucast (drop_bit 48 dest),
               7 := ucast (drop_bit 40 dest),
               8 := ucast (drop_bit 32 dest),
               9 := ucast (drop_bit 24 dest),
               10 := ucast (drop_bit 16 dest),
               11 := ucast (drop_bit 8 dest),
               12 := ucast (dest AND 0xff),
               13 := ucast (drop_bit 8 net),
               14 := ucast (net AND 0xff),
               15 := broadcastRadius,
               16 := options]"
  let ?X = "xb1\<lparr>wbuf := copy ?w 17 data\<rparr>"
  let ?n = "14 + int (length data)"
  have wl: "length (wbuf ?X) = 65539"
    using fields len by (simp add: copy_length)
  have px: "port ?X = port xb"
    using fields by simp
  have n: "0 \<le> ?n" "?n \<le> 65535"
    using data by simp_all
  have room: "4 + nat ?n \<le> length (wbuf ?X)"
    using wl data by simp
  let ?fr = "[wbuf ?X ! 0, word_of_int (drop_bit 8 ?n), word_of_int (?n AND 0xff)] @
             take (nat ?n) (drop 3 (wbuf ?X)) @
             [0xff - checksum (take (nat ?n) (drop 3 (wbuf ?X)))]"
  from writeFrame_written [OF n room] ok px
  have wf: "fst (writeFrame ?X ?n) = None"
    "written (port (snd (writeFrame ?X ?n))) = written (port xb) @ [?fr]"
    by simp_all
  have frl: "length ?fr = 4 + 14 + length data"
    using wl data by simp
  obtain err xb2 where w: "writeFrame ?X ?n = (err, xb2)"
    by (cases "writeFrame ?X ?n")
  with wf have e: "err = None" and wr: "written (port xb2) = written (port xb) @ [?fr]"
    by simp_all
  have "Transmit xb dest net broadcastRadius options data = (Return () None, xb2)"
    unfolding Transmit_def nf Let_def prod.case w e
    using data by simp
  with wr frl show ?thesis by blast
qed

text \<open>
  C5. \<open>Transmit\<close> with more than 65516 bytes of data returns the size error and leaves
  the driver and the byte stream as they were. With at most 65516 bytes, on a port that
  accepts the write, it succeeds and writes one frame of \<open>4 + 14 + length data\<close>
  bytes; and with at most 65516 bytes it never returns the size error. For 65520 bytes
  that is the error, for 65516 bytes a frame of 65534 bytes.
\<close>

theorem Transmit_size_limit:
  "(65516 < length data \<longrightarrow>
      Transmit xb dest net broadcastRadius options data =
        (Return () (Some (ErrDataTooLong (length data))), xb)) \<and>
   (length data \<le> 65516 \<and> length (wbuf xb) = 65539 \<and> \<not> write_fails (port xb) \<longrightarrow>
      (\<exists>fr xb'. Transmit xb dest net broadcastRadius options data = (Return () None, xb') \<and>
         written (port xb') = written (port xb) @ [fr] \<and>
         length fr = 4 + 14 + length data)) \<and>
   (length data \<le> 65516 \<longrightarrow>
      (\<forall>n. fst (Transmit xb dest net broadcastRadius options data) \<noteq>
             Return () (Some (ErrDataTooLong n))))"
proof (intro conjI impI allI)
  assume "65516 < length data"
  then show "Transmit xb dest net broadcastRadius options data =
        (Return () (Some (ErrDataTooLong (length data))), xb)"
    by (rule Transmit_too_long)
next
  assume "length data \<le> 65516 \<and> length (wbuf xb) = 65539 \<and> \<not> write_fails (port xb)"
  then show "\<exists>fr xb'. Transmit xb dest net broadcastRadius options data = (Return () None, xb') \<and>
         written (port xb') = written (port xb) @ [fr] \<and>
         length fr = 4 + 14 + length data"
    using Transmit_written by blast
next
  fix n
  assume data: "length data \<le> 65516"
  obtain fid xb1 where nf: "nextFrameID xb = (fid, xb1)"
    by (cases "nextFrameID xb")
  let ?w = "(wbuf xb1)
              [3 := frameZigBeeTransmitRequest,
               4 := fid,
               5 := ucast (drop_bit 56 dest),
               6 := ucast (drop_bit 48 dest),
               7 := ucast (drop_bit 40 dest),
               8 := ucast (drop_bit 32 dest),
               9 := ucast (drop_bit 24 dest),
               10 := ucast (drop_bit 16 dest),
               11 := ucast (drop_bit 8 dest),
               12 := ucast (dest AND 0xff),
               13 := ucast (drop_bit 8 net),
               14 := ucast (net AND 0xff),
               15 := broadcastRadius,
               16 := options]"
  let ?X = "xb1\<lparr>wbuf := copy ?w 17 data\<rparr>"
  let ?n = "14 + int (length data)"
  obtain err xb2 where w: "writeFrame ?X ?n = (err, xb2)"
    by (cases "writeFrame ?X ?n")
  have "fst (writeFrame ?X ?n) = (if write_fails (port ?X) then Some ErrPortWrite else None)"
    using data by (simp add: writeFrame_fst)
  with w have e: "err \<noteq> Some (ErrDataTooLong n)"
    by (auto split: if_splits)
  have "Transmit xb dest net broadcastRadius options data = (Return () err, xb2)"
    unfolding Transmit_def nf Let_def prod.case w
    using data by simp
  with e show "fst (Transmit xb dest net broadcastRadius options data) \<noteq>
             Return () (Some (ErrDataTooLong n))"
    by simp
qed

theorem Transmit_size_limit_witness:
  "65516 < length (replicate 65520 (0 :: byte)) \<and>
   Transmit (Open (port_holding [])) 0 0xfffe 0 0 (replicate 65520 0) =
     (Return () (Some (ErrDataTooLong 65520)), Open (port_holding [])) \<and>
   length (replicate 65516 (0 :: byte)) \<le> 65516 \<and>
   length (wbuf (Open (port_holding []))) = 65539 \<and>
   \<not> write_fails (port (Open (port_holding []))) \<and>
   (\<exists>fr xb'. Transmit (Open (port_holding [])) 0 0xfffe 0 0 (replicate 65516 0) =
        (Return () None, xb') \<and>
      written (port xb') = [fr] \<and> length fr = 65534)"
proof -
  let ?xb = "Open (port_holding [])"
  have a: "65516 < length (replicate 65520 (0 :: byte))" by simp
  have b: "length (replicate 65516 (0 :: byte)) \<le> 65516 \<and> length (wbuf ?xb) = 65539 \<and>
           \<not> write_fails (port ?xb)"
    by (simp add: Open_wbuf_length Open_port)
  from Transmit_size_limit [of "replicate 65520 0" ?xb 0 "0xfffe" 0 0] a
  have c: "Transmit ?xb 0 0xfffe 0 0 (replicate 65520 0) =
            (Return () (Some (ErrDataTooLong 65520)), ?xb)"
    by simp
  from Transmit_size_limit [of "replicate 65516 0" ?xb 0 "0xfffe" 0 0] b
  have d: "\<exists>fr xb'. Transmit ?xb 0 0xfffe 0 0 (replicate 65516 0) = (Return () None, xb') \<and>
      written (port xb') = [fr] \<and> length fr = 65534"
    by (simp add: Open_port)
  from a b c d show ?thesis by simp
qed

section \<open>Gathering requests: deadline, errors and malformed records\<close>

lemma IndexByte_None: "IndexByte xs c = None \<longleftrightarrow> c \<notin> set xs"
  by (induction xs) auto

lemma IndexByte_Some: "IndexByte xs c = Some ix \<Longrightarrow> ix < length xs \<and> xs ! ix = c"
  by (induction xs arbitrary: ix) (auto split: if_splits)

lemma validateATResponse_None:
  "validateATResponse cmd c s = None \<longleftrightarrow> c = cmd \<and> s = CSOK"
  by (simp add: validateATResponse_def)

text \<open>The loop of a gathering request appends one record per well-formed response.\<close>

lemma gather_prefix:
  assumes "list_all2 (\<lambda>ev r. \<exists>d. ev = ATCommandResponse cmd CSOK d \<and> parse d = Record r) evs rs"
  shows "gather cmd parse (map Received evs @ sel) acc = gather cmd parse sel (acc @ rs)"
  using assms
proof (induction evs rs arbitrary: acc rule: list_all2_induct)
  case Nil
  then show ?case by simp
next
  case (Cons ev evs r rs)
  then obtain d where "ev = ATCommandResponse cmd CSOK d" "parse d = Record r"
    by blast
  with Cons.IH [of "acc @ [r]"] show ?case
    by (simp add: validateATResponse_def)
qed

lemma gathering_fst:
  assumes ok: "\<not> write_fails (port xb)"
  shows "fst (gathering xb cmd parse sel) = gather cmd parse sel []"
proof -
  obtain fid xb1 where nf: "nextFrameID xb = (fid, xb1)"
    by (cases "nextFrameID xb")
  let ?w = "(wbuf xb1)[3 := frameATCommand, 4 := fid, 5 := fst cmd, 6 := snd cmd]"
  let ?xb2 = "registerListener (xb1\<lparr>wbuf := ?w\<rparr>) fid"
  obtain err xb3 where wf: "writeFrame ?xb2 4 = (err, xb3)"
    by (cases "writeFrame ?xb2 4")
  have "port ?xb2 = port xb"
    using nextFrameID_fields [OF nf] by (simp add: registerListener_def)
  then have "fst (writeFrame ?xb2 4) = None"
    using ok by (simp add: writeFrame_fst)
  with wf have err: "err = None" by simp
  have "gathering xb cmd parse sel =
          (case gather cmd parse sel [] of
             Blocked \<Rightarrow> (Blocked, xb3)
           | r \<Rightarrow> (r, unregisterListener xb3 fid))"
    unfolding gathering_def nf Let_def prod.case
    using wf err by (simp cong: outcome.case_cong)
  then show ?thesis
    by (simp split: outcome.splits)
qed

lemma gathering_deadline:
  assumes "\<not> write_fails (port xb)"
    and "list_all2 (\<lambda>ev r. \<exists>d. ev = ATCommandResponse cmd CSOK d \<and> parse d = Record r) evs rs"
  shows "fst (gathering xb cmd parse (map Received evs @ Deadline # sel)) = Return rs None"
  using assms by (simp add: gathering_fst gather_prefix)

lemma gathering_invalid:
  assumes "\<not> write_fails (port xb)"
    and "list_all2 (\<lambda>ev r. \<exists>d. ev = ATCommandResponse cmd CSOK d \<and> parse d = Record r) evs rs"
    and "validateATResponse cmd c s = Some e"
  shows "fst (gathering xb cmd parse
                (map Received evs @ Received (ATCommandResponse c s d) # sel)) =
           Return rs (Some e)"
  using assms by (simp add: gathering_fst gather_prefix)

lemma gathering_parsed:
  assumes "\<not> write_fails (port xb)"
    and "list_all2 (\<lambda>ev r. \<exists>d. ev = ATCommandResponse cmd CSOK d \<and> parse d = Record r) evs rs"
  shows "fst (gathering xb cmd parse
                (map Received evs @ Received (ATCommandResponse cmd CSOK d) # sel)) =
           (case parse d of
              Malformed e \<Rightarrow> Return rs (Some e)
            | ParsePanic \<Rightarrow> Panic
            | Record r \<Rightarrow> gather cmd parse sel (rs @ [r]))"
  using assms by (simp add: gathering_fst gather_prefix validateATResponse_def)

lemma gathering_wrong_frame:
  assumes "\<not> write_fails (port xb)"
    and "list_all2 (\<lambda>ev r. \<exists>d. ev = ATCommandResponse cmd CSOK d \<and> parse d = Record r) evs rs"
    and "\<forall>c s d. ev \<noteq> ATCommandResponse c s d"
  shows "fst (gathering xb cmd parse (map Received evs @ Received ev # sel)) =
           Return [] (Some ErrWrongFrame)"
  using assms by (cases ev) (simp_all add: gathering_fst gather_prefix)

text \<open>The three ways a node record is taken: too short, without terminator, or with
  fewer than 8 bytes after the terminator; otherwise it is a node.\<close>

lemma NodeDiscover_record_short:
  "length d < 18 \<Longrightarrow> NodeDiscover_record d = Malformed (ErrNodeFrameShort (length d))"
  by (simp add: NodeDiscover_record_def)

lemma NodeDiscover_record_no_terminator:
  "18 \<le> length d \<Longrightarrow> 0 \<notin> set (drop 10 d) \<Longrightarrow>
   NodeDiscover_record d = Malformed ErrNoNullTerminator"
  by (simp add: NodeDiscover_record_def lift_index_def slice_def slice_from_def
      IndexByte_None [THEN iffD2])

lemma NodeDiscover_record_panic:
  assumes len: "18 \<le> length d" and nul: "IndexByte (drop 10 d) 0 = Some ix"
    and short: "length d < 10 + ix + 1 + 8"
  shows "NodeDiscover_record d = ParsePanic"
proof -
  have ix: "ix < length d - 10"
    using IndexByte_Some [OF nul] by simp
  let ?d2 = "drop (ix + 1) (drop 10 d)"
  have "length ?d2 < 8"
    using short ix by simp
  then have "index ?d2 7 = None"
    by (simp add: index_def)
  then show ?thesis
    using len nul ix
    by (simp add: NodeDiscover_record_def lift_index_def slice_def slice_from_def
        split: option.splits)
qed


lemma ActiveScan_record_short:
  "length d < 16 \<Longrightarrow> ActiveScan_record d = Malformed (ErrScanFrameShort (length d))"
  by (simp add: ActiveScan_record_def)

lemma node_record_example:
  "NodeDiscover_record
     [0x00, 0x00, 0x01, 0x02, 0x03, 0x04, 0x05, 0x06, 0x07, 0x08, 0x41, 0x42, 0x00,
      0x09, 0x09, 0x01, 0x00, 0xc1, 0x05, 0x10, 0x1e] = Record node_value"
  by (simp add: NodeDiscover_record_def lift_index_def slice_def slice_from_def index_def
      decodeUint_def)

lemma scan_record_example:
  "ActiveScan_record
     [0x02, 0x0b, 0x12, 0x34, 0x01, 0x02, 0x03, 0x04, 0x05, 0x06, 0x07, 0x08,
      0x01, 0x02, 0xff, 0xd8] = Record scan_value"
  by (simp add: ActiveScan_record_def lift_index_def slice_def index_def decodeUint_def)

text \<open>
  What \<open>NodeDiscover\<close> and \<open>ActiveScan\<close> return on a port that accepts the write,
  after any number of well-formed responses, each of which added one record: on the
  deadline, those records with no error; on an AT command response with another AT
  identifier or a status other than OK, or one whose data is shorter than the minimum
  (18 bytes for a node, 16 for a scanned device), or a node record without NUL
  terminator, those records together with the error; on an event that is not an AT
  command response, the error and \<open>nil\<close>.
\<close>

lemma gathering_returns:
  assumes ok: "\<not> write_fails (port xb)"
    and nodes: "list_all2 (\<lambda>ev n. \<exists>d. ev = ATCommandResponse atNodeDiscover CSOK d \<and>
                  NodeDiscover_record d = Record n) nevs nodes"
    and devices: "list_all2 (\<lambda>ev n. \<exists>d. ev = ATCommandResponse atActiveScan CSOK d \<and>
                  ActiveScan_record d = Record n) sevs devices"
  shows "fst (NodeDiscover xb (map Received nevs @ Deadline # sel)) = Return nodes None \<and>
         fst (ActiveScan xb (map Received sevs @ Deadline # sel)) = Return devices None \<and>
         (c \<noteq> atNodeDiscover \<or> s \<noteq> CSOK \<longrightarrow>
            (\<exists>e. validateATResponse atNodeDiscover c s = Some e \<and>
                 fst (NodeDiscover xb
                        (map Received nevs @ Received (ATCommandResponse c s d) # sel)) =
                   Return nodes (Some e))) \<and>
         (c \<noteq> atActiveScan \<or> s \<noteq> CSOK \<longrightarrow>
            (\<exists>e. validateATResponse atActiveScan c s = Some e \<and>
                 fst (ActiveScan xb
                        (map Received sevs @ Received (ATCommandResponse c s d) # sel)) =
                   Return devices (Some e))) \<and>
         (length d < 18 \<longrightarrow>
            fst (NodeDiscover xb
                   (map Received nevs @
                    Received (ATCommandResponse atNodeDiscover CSOK d) # sel)) =
              Return nodes (Some (ErrNodeFrameShort (length d)))) \<and>
         (18 \<le> length d \<and> 0 \<notin> set (drop 10 d) \<longrightarrow>
            fst (NodeDiscover xb
                   (map Received nevs @
                    Received (ATCommandResponse atNodeDiscover CSOK d) # sel)) =
              Return nodes (Some ErrNoNullTerminator)) \<and>
         (length d < 16 \<longrightarrow>
            fst (ActiveScan xb
                   (map Received sevs @
                    Received (ATCommandResponse atActiveScan CSOK d) # sel)) =
              Return devices (Some (ErrScanFrameShort (length d)))) \<and>
         ((\<forall>c s d. ev \<noteq> ATCommandResponse c s d) \<longrightarrow>
            fst (NodeDiscover xb (map Received nevs @ Received ev # sel)) =
              Return [] (Some ErrWrongFrame) \<and>
            fst (ActiveScan xb (map Received sevs @ Received ev # sel)) =
              Return [] (Some ErrWrongFrame))"
proof (intro conjI impI)
  show "fst (NodeDiscover xb (map Received nevs @ Deadline # sel)) = Return nodes None"
    unfolding NodeDiscover_def using ok nodes by (rule gathering_deadline)
  show "fst (ActiveScan xb (map Received sevs @ Deadline # sel)) = Return devices None"
    unfolding ActiveScan_def using ok devices by (rule gathering_deadline)
next
  assume "c \<noteq> atNodeDiscover \<or> s \<noteq> CSOK"
  then obtain e where e: "validateATResponse atNodeDiscover c s = Some e"
    using validateATResponse_None [of atNodeDiscover c s] by auto
  from gathering_invalid [OF ok nodes e] e
  show "\<exists>e. validateATResponse atNodeDiscover c s = Some e \<and>
            fst (NodeDiscover xb
                   (map Received nevs @ Received (ATCommandResponse c s d) # sel)) =
              Return nodes (Some e)"
    by (simp add: NodeDiscover_def)
next
  assume "c \<noteq> atActiveScan \<or> s \<noteq> CSOK"
  then obtain e where e: "validateATResponse atActiveScan c s = Some e"
    using validateATResponse_None [of atActiveScan c s] by auto
  from gathering_invalid [OF ok devices e] e
  show "\<exists>e. validateATResponse atActiveScan c s = Some e \<and>
            fst (ActiveScan xb
                   (map Received sevs @ Received (ATCommandResponse c s d) # sel)) =
              Return devices (Some e)"
    by (simp add: ActiveScan_def)
next
  assume "length d < 18"
  then show "fst (NodeDiscover xb
                   (map Received nevs @
                    Received (ATCommandResponse atNodeDiscover CSOK d) # sel)) =
              Return nodes (Some (ErrNodeFrameShort (length d)))"
    using gathering_parsed [OF ok nodes, of d sel]
    by (simp add: NodeDiscover_def NodeDiscover_record_short)
next
  assume "18 \<le> length d \<and> 0 \<notin> set (drop 10 d)"
  then show "fst (NodeDiscover xb
                   (map Received nevs @
                    Received (ATCommandResponse atNodeDiscover CSOK d) # sel)) =
              Return nodes (Some ErrNoNullTerminator)"
    using gathering_parsed [OF ok nodes, of d sel]
    by (simp add: NodeDiscover_def NodeDiscover_record_no_terminator)
next
  assume "length d < 16"
  then show "fst (ActiveScan xb
                   (map Received sevs @
                    Received (ATCommandResponse atActiveScan CSOK d) # sel)) =
              Return devices (Some (ErrScanFrameShort (length d)))"
    using gathering_parsed [OF ok devices, of d sel]
    by (simp add: ActiveScan_def ActiveScan_record_short)
next
  assume w: "\<forall>c s d. ev \<noteq> ATCommandResponse c s d"
  show "fst (NodeDiscover xb (map Received nevs @ Received ev # sel)) =
          Return [] (Some ErrWrongFrame)"
    unfolding NodeDiscover_def using ok nodes w by (rule gathering_wrong_frame)
  show "fst (ActiveScan xb (map Received sevs @ Received ev # sel)) =
          Return [] (Some ErrWrongFrame)"
    unfolding ActiveScan_def using ok devices w by (rule gathering_wrong_frame)
qed

text \<open>
  The minimum of 18 bytes is one byte short of the smallest well-formed record (10
  bytes, an empty identifier with its NUL, and 8 more bytes): no record of exactly 18
  bytes yields a node.
\<close>

lemma NodeDiscover_record_18:
  assumes "length d = 18"
  shows "NodeDiscover_record d = Malformed ErrNoNullTerminator \<or>
         NodeDiscover_record d = ParsePanic"
proof (cases "IndexByte (drop 10 d) 0")
  case None
  then have "0 \<notin> set (drop 10 d)"
    by (simp add: IndexByte_None)
  with assms show ?thesis
    by (simp add: NodeDiscover_record_no_terminator)
next
  case (Some ix)
  then have "ix < 8"
    using IndexByte_Some [OF Some] assms by simp
  with assms Some show ?thesis
    by (simp add: NodeDiscover_record_panic)
qed

text \<open>
  C10. A node-discovery response that passes validation and the 18-byte minimum, and
  whose node identifier ends in a NUL, makes \<open>NodeDiscover\<close> panic whenever fewer than
  8 bytes follow that NUL: the fixed-offset reads of parent address, device type,
  status, profile and manufacturer run past the end of the data.
\<close>

theorem NodeDiscover_trailing_bytes_panic:
  assumes ok: "\<not> write_fails (port xb)"
    and nodes: "list_all2 (\<lambda>ev n. \<exists>d. ev = ATCommandResponse atNodeDiscover CSOK d \<and>
                  NodeDiscover_record d = Record n) nevs nodes"
    and len: "18 \<le> length d"
    and nul: "IndexByte (drop 10 d) 0 = Some ix"
    and short: "length d < 10 + ix + 1 + 8"
  shows "NodeDiscover_record d = ParsePanic \<and>
         fst (NodeDiscover xb
                (map Received nevs @
                 Received (ATCommandResponse atNodeDiscover CSOK d) # sel)) = Panic"
  using gathering_parsed [OF ok nodes, of d sel] NodeDiscover_record_panic [OF len nul short]
  by (simp add: NodeDiscover_def)


lemma node_response_parses:
  "list_all2 (\<lambda>ev n. \<exists>d. ev = ATCommandResponse atNodeDiscover CSOK d \<and>
      NodeDiscover_record d = Record n) [node_response] [node_value]"
  using node_record_example by simp

lemma read_TransmitStatus_example:
  "readFrame [0x7e, 0x00, 0x07, 0x8b, 0x01, 0xff, 0xfe, 0x00, 0x00, 0x00, 0x76] =
     (Frame [0x8b, 0x01, 0xff, 0xfe, 0x00, 0x00, 0x00], [])"
  by (simp add: readFrame_def frameDelimiter_def checksum_def Let_def)

lemma classify_TransmitStatus_example:
  "classify [0x8b, 0x01, 0xff, 0xfe, 0x00, 0x00, 0x00] =
     Some (1, TransmitStatus 0xfffe 0 0 0)"
  using classify_TransmitStatus [of "[0x8b, 0x01, 0xff, 0xfe, 0x00, 0x00, 0x00]"]
  by (simp add: frameZigBeeTransmitStatus_def)

text \<open>
  C3. A gathering request returns the records gathered so far with no error on the
  deadline, and with the error on a response that fails validation or carries a
  malformed record (\<open>gathering_returns\<close>). On an event of the wrong type the code
  departs from that. The first request of a freshly opened driver has frame identifier
  1; a ZigBee transmit status frame with that identifier, \<open>7E 00 07 8B 01 FF FE 00 00 00
  76\<close>, is routed by the reader to the request's waiter; and when it arrives there after
  one well-formed response, \<open>NodeDiscover\<close> and \<open>ActiveScan\<close> return the error with
  \<open>nil\<close>, although the record had been gathered, as the deadline in its place shows.
\<close>

theorem gathering_wrong_frame_drops_records:
  "fst (nextFrameID (Open (port_holding []))) = 1 \<and>
   readLoop_iter (registerListener
      (Open (port_holding
         [0x7e, 0x00, 0x07, 0x8b, 0x01, 0xff, 0xfe, 0x00, 0x00, 0x00, 0x76])) 1) =
     Again ((Open (port_holding []))
       \<lparr>idMap := [1 \<mapsto> \<lparr>items = [TransmitStatus 0xfffe 0 0 0], capacity = 1\<rparr>]\<rparr>) \<and>
   fst (NodeDiscover (Open (port_holding [])) [Received node_response, Deadline]) =
     Return [node_value] None \<and>
   fst (NodeDiscover (Open (port_holding []))
          [Received node_response, Received (TransmitStatus 0xfffe 0 0 0)]) =
     Return [] (Some ErrWrongFrame) \<and>
   fst (ActiveScan (Open (port_holding [])) [Received scan_response, Deadline]) =
     Return [scan_value] None \<and>
   fst (ActiveScan (Open (port_holding []))
          [Received scan_response, Received (TransmitStatus 0xfffe 0 0 0)]) =
     Return [] (Some ErrWrongFrame)"
proof -
  let ?xb = "Open (port_holding [])"
  let ?T = "registerListener
      (Open (port_holding
         [0x7e, 0x00, 0x07, 0x8b, 0x01, 0xff, 0xfe, 0x00, 0x00, 0x00, 0x76])) 1"
  have ok: "\<not> write_fails (port ?xb)" by (simp add: Open_port)
  have id: "fst (nextFrameID ?xb) = 1"
    by (simp add: nextFrameID_fst Open_def)
  have "readFrame (unread (port ?T)) = (Frame [0x8b, 0x01, 0xff, 0xfe, 0x00, 0x00, 0x00], [])"
    by (simp add: registerListener_def Open_port read_TransmitStatus_example)
  from readLoop_iter_Frame [OF this] classify_TransmitStatus_example
  have route: "readLoop_iter ?T =
     Again (?xb\<lparr>idMap := [1 \<mapsto> \<lparr>items = [TransmitStatus 0xfffe 0 0 0], capacity = 1\<rparr>]\<rparr>)"
    by (simp add: dispatch_def trySend_def registerListener_def make_chan_def Open_def)
  have n1: "fst (NodeDiscover ?xb [Received node_response, Deadline]) = Return [node_value] None"
    by (simp add: NodeDiscover_def gathering_fst [OF ok] validateATResponse_def
        node_record_example)
  have n2: "fst (NodeDiscover ?xb
             [Received node_response, Received (TransmitStatus 0xfffe 0 0 0)]) =
     Return [] (Some ErrWrongFrame)"
    by (simp add: NodeDiscover_def gathering_fst [OF ok] validateATResponse_def
        node_record_example)
  have s1: "fst (ActiveScan ?xb [Received scan_response, Deadline]) = Return [scan_value] None"
    by (simp add: ActiveScan_def gathering_fst [OF ok] validateATResponse_def
        scan_record_example)
  have s2: "fst (ActiveScan ?xb
             [Received scan_response, Received (TransmitStatus 0xfffe 0 0 0)]) =
     Return [] (Some ErrWrongFrame)"
    by (simp add: ActiveScan_def gathering_fst [OF ok] validateATResponse_def
        scan_record_example)
  from id route n1 n2 s1 s2 show ?thesis
    by (intro conjI)
qed

theorem NodeDiscover_trailing_bytes_panic_witness:
  "\<not> write_fails (port (Open (port_holding []))) \<and>
   list_all2 (\<lambda>ev n. \<exists>d. ev = ATCommandResponse atNodeDiscover CSOK d \<and>
      NodeDiscover_record d = Record n) [node_response] [node_value] \<and>
   18 \<le> length [0x00, 0x00, 0x01, 0x02, 0x03, 0x04, 0x05, 0x06, 0x07, 0x08, 0x41, 0x42, 0x00,
                 0x09, 0x09, 0x01, 0x00, 0xc1 :: byte] \<and>
   IndexByte (drop 10 [0x00, 0x00, 0x01, 0x02, 0x03, 0x04, 0x05, 0x06, 0x07, 0x08, 0x41, 0x42,
                       0x00, 0x09, 0x09, 0x01, 0x00, 0xc1]) 0 = Some 2 \<and>
   length [0x00, 0x00, 0x01, 0x02, 0x03, 0x04, 0x05, 0x06, 0x07, 0x08, 0x41, 0x42, 0x00,
           0x09, 0x09, 0x01, 0x00, 0xc1 :: byte] < 10 + 2 + 1 + 8 \<and>
   NodeDiscover_record [0x00, 0x00, 0x01, 0x02, 0x03, 0x04, 0x05, 0x06, 0x07, 0x08, 0x41, 0x42,
                        0x00, 0x09, 0x09, 0x01, 0x00, 0xc1] = ParsePanic \<and>
   fst (NodeDiscover (Open (port_holding []))
          [Received node_response,
           Received (ATCommandResponse atNodeDiscover CSOK
             [0x00, 0x00, 0x01, 0x02, 0x03, 0x04, 0x05, 0x06, 0x07, 0x08, 0x41, 0x42, 0x00,
              0x09, 0x09, 0x01, 0x00, 0xc1])]) = Panic"
proof -
  let ?d = "[0x00, 0x00, 0x01, 0x02, 0x03, 0x04, 0x05, 0x06, 0x07, 0x08, 0x41, 0x42, 0x00,
             0x09, 0x09, 0x01, 0x00, 0xc1 :: byte]"
  have ok: "\<not> write_fails (port (Open (port_holding [])))" by (simp add: Open_port)
  have len: "18 \<le> length ?d" by simp
  have nul: "IndexByte (drop 10 ?d) 0 = Some 2" by simp
  have short: "length ?d < 10 + 2 + 1 + 8" by simp
  from NodeDiscover_trailing_bytes_panic [OF ok node_response_parses len nul short, of "[]"]
  have "NodeDiscover_record ?d = ParsePanic \<and>
        fst (NodeDiscover (Open (port_holding []))
          [Received node_response, Received (ATCommandResponse atNodeDiscover CSOK ?d)]) = Panic"
    by simp
  with ok node_response_parses len nul short show ?thesis
    by (intro conjI) simp_all
qed

end
